theory Spec2Isabelle
  imports Main "HOL-Library.Word"
begin

unbundle bit_operations_syntax

section \<open>Cypress TTSP touchscreen core: data model\<close>

text \<open>
  A shallow embedding of \<^verbatim>\<open>cyttsp_core.c\<close>. Bytes are 8-bit words. The C \<^verbatim>\<open>int\<close>
  return codes are integers (they never leave the range of a 32-bit \<^verbatim>\<open>int\<close>).
  The bus, the delays and the input core are outside the driver: what the driver does to
  them is recorded, in order, in a trace of events, and what the bus answers is an oracle
  indexed by the number of the bus call.
\<close>

type_synonym u8 = "8 word"

subsection \<open>Constants of the headers\<close>

definition CY_NUM_BL_KEYS :: nat where "CY_NUM_BL_KEYS = 8"
definition CY_NUM_RETRY :: nat where "CY_NUM_RETRY = 4"
definition CY_REG_BASE :: u8 where "CY_REG_BASE = 0x00"
definition CY_REG_ACT_DIST :: u8 where "CY_REG_ACT_DIST = 0x1E"
definition CY_REG_ACT_INTRVL :: u8 where "CY_REG_ACT_INTRVL = 0x1D"
definition CY_DELAY_DFLT :: nat where "CY_DELAY_DFLT = 20"
definition CY_DELAY_MAX :: nat where "CY_DELAY_MAX = 500 div CY_DELAY_DFLT"
definition CY_ACT_DIST_DFLT :: u8 where "CY_ACT_DIST_DFLT = 0xF8"
definition CY_HNDSHK_BIT :: u8 where "CY_HNDSHK_BIT = 0x80"
definition CY_OPERATE_MODE :: u8 where "CY_OPERATE_MODE = 0x00"
definition CY_SYSINFO_MODE :: u8 where "CY_SYSINFO_MODE = 0x10"
definition CY_SOFT_RESET_MODE :: u8 where "CY_SOFT_RESET_MODE = 0x01"
definition CY_DEEP_SLEEP_MODE :: u8 where "CY_DEEP_SLEEP_MODE = 0x02"
definition CY_LOW_POWER_MODE :: u8 where "CY_LOW_POWER_MODE = 0x04"
definition CY_MAX_FINGER :: nat where "CY_MAX_FINGER = 4"
definition CY_MAX_ID :: nat where "CY_MAX_ID = 16"
definition CY_ACT_INTRVL_DFLT :: u8 where "CY_ACT_INTRVL_DFLT = 0x00"
definition CY_TCH_TMOUT_DFLT :: u8 where "CY_TCH_TMOUT_DFLT = 0xFF"
definition CY_LP_INTRVL_DFLT :: u8 where "CY_LP_INTRVL_DFLT = 0x0A"

text \<open>
  The error numbers the core returns. They come from the kernel's headers
  (\<^verbatim>\<open>errno-base.h\<close>), which are not part of the repository; the values are those of
  Linux.
\<close>

definition EIO :: int where "EIO = 5"
definition EAGAIN :: int where "EAGAIN = 11"
definition ENOMEM :: int where "ENOMEM = 12"
definition ENODEV :: int where "ENODEV = 19"
definition EINVAL :: int where "EINVAL = 22"

text \<open>Sizes of the packed register structures (all fields are bytes or packed).\<close>

definition sizeof_xydata :: u8 where "sizeof_xydata = 32"
definition sizeof_sysinfo_data :: u8 where "sizeof_sysinfo_data = 32"
definition sizeof_bootloader_data :: u8 where "sizeof_bootloader_data = 16"

subsection \<open>The helper macros\<close>

definition GET_NUM_TOUCHES :: "u8 \<Rightarrow> u8" where "GET_NUM_TOUCHES x = x AND 0x0F"
definition IS_LARGE_AREA :: "u8 \<Rightarrow> u8" where "IS_LARGE_AREA x = drop_bit 4 (x AND 0x10)"
definition IS_BAD_PKT :: "u8 \<Rightarrow> u8" where "IS_BAD_PKT x = x AND 0x20"
definition IS_VALID_APP :: "u8 \<Rightarrow> u8" where "IS_VALID_APP x = x AND 0x01"
definition IS_OPERATIONAL_ERR :: "u8 \<Rightarrow> u8" where "IS_OPERATIONAL_ERR x = x AND 0x3F"
definition GET_HSTMODE :: "u8 \<Rightarrow> u8" where "GET_HSTMODE reg = drop_bit 4 (reg AND 0x70)"
definition GET_BOOTLOADERMODE :: "u8 \<Rightarrow> u8" where
  "GET_BOOTLOADERMODE reg = drop_bit 4 (reg AND 0x10)"

subsection \<open>Power state, platform data, the session\<close>

datatype cyttsp_powerstate =
    CY_IDLE_STATE
  | CY_ACTIVE_STATE
  | CY_LOW_PWR_STATE
  | CY_SLEEP_STATE
  | CY_BL_STATE
  | CY_INVALID_STATE

text \<open>
  \<^verbatim>\<open>struct cyttsp_platform_data\<close>: the fields the core reads. \<open>use_hndshk\<close> and
  \<open>use_sleep\<close> are \<^verbatim>\<open>bool\<close> in the header. \<open>bl_keys\<close> is a pointer: \<open>None\<close> is
  \<^verbatim>\<open>NULL\<close>, \<open>Some m\<close> the memory at the address (\<open>m i\<close> is the byte \<^verbatim>\<open>bl_keys[i]\<close>;
  the keys are the first \<^verbatim>\<open>CY_NUM_BL_KEYS\<close> of them).
\<close>

record cyttsp_platform_data =
  use_hndshk :: bool
  use_sleep :: bool
  act_dist :: u8
  act_intrvl :: u8
  tch_tmout :: u8
  lp_intrvl :: u8
  bl_keys :: "(nat \<Rightarrow> u8) option"

text \<open>What the driver does to the outside, in order.\<close>

datatype event =
    BusRead u8 u8
  | BusWrite u8 "u8 list"
  | Msleep nat
  | WaitBlReady nat
  | CompleteBlReady
  | ReportSlot int int int int
  | ReportSlotEmpty int
  | InputSync

text \<open>
  One answer of the bus: the \<^verbatim>\<open>s32\<close> the operation returns and, for a read, the bytes
  it stored into the caller's buffer (from the buffer's start).
\<close>

record bus_resp =
  rc :: int
  rdata :: "u8 list"

text \<open>
  \<^verbatim>\<open>struct cyttsp\<close> with the environment it runs in: \<open>bus\<close> answers the \<open>n\<close>-th bus
  call, \<open>ncalls\<close> counts the calls made, \<open>irq_request\<close> is what
  \<^verbatim>\<open>request_threaded_irq\<close> returns and \<open>bl_ready_wait\<close> what
  \<^verbatim>\<open>wait_for_completion_timeout\<close> returns (0 on timeout, the remaining jiffies
  otherwise), \<open>junk\<close> is what an uninitialised local buffer holds. The two register
  snapshots are byte lists in the layout of their structs.
\<close>

record cyttsp =
  platform_data :: cyttsp_platform_data
  bl_data :: "u8 list"
  sysinfo_data :: "u8 list"
  power_state :: cyttsp_powerstate
  bus :: "nat \<Rightarrow> bus_resp"
  ncalls :: nat
  trace :: "event list"
  irq_request :: int
  bl_ready_wait :: int
  junk :: "nat \<Rightarrow> u8"

definition emit :: "event \<Rightarrow> cyttsp \<Rightarrow> cyttsp" where
  "emit e ts = ts\<lparr>trace := trace ts @ [e]\<rparr>"

definition msleep :: "nat \<Rightarrow> cyttsp \<Rightarrow> cyttsp" where
  "msleep ms ts = emit (Msleep ms) ts"

section \<open>Retrying transport\<close>

text \<open>
  The bus stores at most \<open>length\<close> bytes at the start of the buffer; the bytes it does
  not store keep their old value.
\<close>

definition store_bytes :: "u8 list \<Rightarrow> u8 list \<Rightarrow> u8 list" where
  "store_bytes d buf = take (length buf) d @ drop (length d) buf"

definition bus_read :: "cyttsp \<Rightarrow> u8 \<Rightarrow> u8 \<Rightarrow> u8 list \<Rightarrow> int \<times> u8 list \<times> cyttsp" where
  "bus_read ts command len buf =
     (let r = bus ts (ncalls ts) in
      (rc r, store_bytes (take (unat len) (rdata r)) buf,
       emit (BusRead command len) (ts\<lparr>ncalls := Suc (ncalls ts)\<rparr>)))"

definition bus_write :: "cyttsp \<Rightarrow> u8 \<Rightarrow> u8 \<Rightarrow> u8 list \<Rightarrow> int \<times> cyttsp" where
  "bus_write ts command len buf =
     (let r = bus ts (ncalls ts) in
      (rc r, emit (BusWrite command (take (unat len) buf)) (ts\<lparr>ncalls := Suc (ncalls ts)\<rparr>)))"

text \<open>
  The loop \<^verbatim>\<open>for (tries = 0; tries < CY_NUM_RETRY && (retval < 0); tries++)\<close> of
  \<^verbatim>\<open>ttsp_read_block_data\<close>, entered with the current \<open>tries\<close> and \<open>retval\<close>.
\<close>

function read_loop :: "nat \<Rightarrow> int \<Rightarrow> cyttsp \<Rightarrow> u8 \<Rightarrow> u8 \<Rightarrow> u8 list \<Rightarrow> int \<times> u8 list \<times> cyttsp" where
  "read_loop tries retval ts command len buf =
     (if tries < CY_NUM_RETRY \<and> retval < 0 then
        (case bus_read ts command len buf of
           (retval', buf', ts') \<Rightarrow>
             read_loop (tries + 1) retval'
               (if retval' \<noteq> 0 then msleep CY_DELAY_DFLT ts' else ts') command len buf')
      else (retval, buf, ts))"
  by pat_completeness auto
termination
  by (relation "measure (\<lambda>(tries, _). CY_NUM_RETRY - tries)") auto

function write_loop :: "nat \<Rightarrow> int \<Rightarrow> cyttsp \<Rightarrow> u8 \<Rightarrow> u8 \<Rightarrow> u8 list \<Rightarrow> int \<times> cyttsp" where
  "write_loop tries retval ts command len buf =
     (if tries < CY_NUM_RETRY \<and> retval < 0 then
        (case bus_write ts command len buf of
           (retval', ts') \<Rightarrow>
             write_loop (tries + 1) retval'
               (if retval' \<noteq> 0 then msleep CY_DELAY_DFLT ts' else ts') command len buf)
      else (retval, ts))"
  by pat_completeness auto
termination
  by (relation "measure (\<lambda>(tries, _). CY_NUM_RETRY - tries)") auto

text \<open>
  \<^verbatim>\<open>ttsp_read_block_data\<close> and \<^verbatim>\<open>ttsp_write_block_data\<close>. The buffer pointer is
  \<open>None\<close> for \<^verbatim>\<open>NULL\<close>. The read returns the buffer as the bus left it.
\<close>

definition ttsp_read_block_data ::
  "cyttsp \<Rightarrow> u8 \<Rightarrow> u8 \<Rightarrow> u8 list option \<Rightarrow> int \<times> u8 list option \<times> cyttsp" where
  "ttsp_read_block_data ts command len buf =
     (case buf of
        None \<Rightarrow> (- EINVAL, None, ts)
      | Some b \<Rightarrow>
          if len = 0 then (- EINVAL, Some b, ts)
          else (case read_loop 0 (- 1) ts command len b of
                  (retval, b', ts') \<Rightarrow> (retval, Some b', ts')))"

definition ttsp_write_block_data ::
  "cyttsp \<Rightarrow> u8 \<Rightarrow> u8 \<Rightarrow> u8 list option \<Rightarrow> int \<times> cyttsp" where
  "ttsp_write_block_data ts command len buf =
     (case buf of
        None \<Rightarrow> (- EINVAL, ts)
      | Some b \<Rightarrow>
          if len = 0 then (- EINVAL, ts)
          else write_loop 0 (- 1) ts command len b)"

section \<open>Mode controller\<close>

subsection \<open>Bootloader registers\<close>

text \<open>\<^verbatim>\<open>struct cyttsp_bootloader_data\<close>: 16 bytes, \<open>bl_file\<close> first, \<open>bl_status\<close> second.\<close>

definition bl_file :: "u8 list \<Rightarrow> u8" where "bl_file d = d ! 0"
definition bl_status :: "u8 list \<Rightarrow> u8" where "bl_status d = d ! 1"

definition cyttsp_load_bl_regs :: "cyttsp \<Rightarrow> int \<times> cyttsp" where
  "cyttsp_load_bl_regs ts =
     (let ts1 = ts\<lparr>bl_data := replicate (unat sizeof_bootloader_data) 0\<rparr>;
          ts2 = ts1\<lparr>bl_data := (bl_data ts1)[1 := 0x10]\<rparr>
      in case ttsp_read_block_data ts2 CY_REG_BASE sizeof_bootloader_data (Some (bl_data ts2)) of
           (retval, buf, ts3) \<Rightarrow>
             (retval, case buf of Some b \<Rightarrow> ts3\<lparr>bl_data := b\<rparr> | None \<Rightarrow> ts3))"

definition cyttsp_bl_app_valid :: "cyttsp \<Rightarrow> int \<times> cyttsp" where
  "cyttsp_bl_app_valid ts =
     (case cyttsp_load_bl_regs ts of
        (retval, ts') \<Rightarrow>
          if retval < 0 then (- ENODEV, ts')
          else if GET_BOOTLOADERMODE (bl_status (bl_data ts')) \<noteq> 0 then
            (if IS_VALID_APP (bl_status (bl_data ts')) \<noteq> 0 then (0, ts')
             else (- ENODEV, ts'))
          else if GET_HSTMODE (bl_file (bl_data ts')) = CY_OPERATE_MODE then
            (if \<not> (IS_OPERATIONAL_ERR (bl_status (bl_data ts')) \<noteq> 0) then (1, ts')
             else (- ENODEV, ts'))
          else (- ENODEV, ts'))"

subsection \<open>Leaving the bootloader\<close>

definition bl_command :: "u8 list" where
  "bl_command = [0x00, 0xFF, 0xA5, 0, 1, 2, 3, 4, 5, 6, 7]"

text \<open>
  \<^verbatim>\<open>memcpy(&dst[off], src, n)\<close> on a buffer of \<open>length dst\<close> bytes: \<open>memcpy_writes\<close> are
  the \<open>n\<close> stores it makes, as (index into \<open>dst\<close>, byte); \<open>memcpy_at\<close> gives the buffer
  after the stores that land inside it, and the stores that land past its end.
\<close>

definition memcpy_writes :: "nat \<Rightarrow> (nat \<Rightarrow> u8) \<Rightarrow> nat \<Rightarrow> (nat \<times> u8) list" where
  "memcpy_writes off src n = map (\<lambda>i. (off + i, src i)) [0..<n]"

definition memcpy_at :: "u8 list \<Rightarrow> nat \<Rightarrow> (nat \<Rightarrow> u8) \<Rightarrow> nat \<Rightarrow> u8 list \<times> (nat \<times> u8) list" where
  "memcpy_at dst off src n =
     (fold (\<lambda>(i, b) d. if i < length d then d[i := b] else d) (memcpy_writes off src n) dst,
      filter (\<lambda>(i, b). length dst \<le> i) (memcpy_writes off src n))"

text \<open>
  The first lines of \<^verbatim>\<open>cyttsp_exit_bl_mode\<close>: the local \<^verbatim>\<open>bl_cmd\<close> (of
  \<^verbatim>\<open>sizeof(bl_command)\<close> bytes) is a copy of \<open>bl_command\<close>, and with keys given
  \<^verbatim>\<open>memcpy(&bl_cmd[sizeof(bl_command) - CY_NUM_BL_KEYS], bl_keys, sizeof(bl_command))\<close>
  runs on it. The result is the buffer and the stores made past its end.
\<close>

definition exit_bl_cmd :: "(nat \<Rightarrow> u8) option \<Rightarrow> u8 list \<times> (nat \<times> u8) list" where
  "exit_bl_cmd keys =
     (case keys of
        None \<Rightarrow> (bl_command, [])
      | Some m \<Rightarrow>
          memcpy_at bl_command (length bl_command - CY_NUM_BL_KEYS) m (length bl_command))"

text \<open>
  The loop \<^verbatim>\<open>do { msleep; retval = cyttsp_load_bl_regs(ts); } while ((retval ||
  GET_BOOTLOADERMODE(...)) && (tries++ < CY_DELAY_MAX))\<close>, entered with the current
  \<open>tries\<close>; it returns \<open>retval\<close> and \<open>tries\<close> as they are after the loop.
\<close>

function exit_bl_poll :: "nat \<Rightarrow> cyttsp \<Rightarrow> int \<times> nat \<times> cyttsp" where
  "exit_bl_poll tries ts =
     (case cyttsp_load_bl_regs (msleep CY_DELAY_DFLT ts) of
        (retval, ts') \<Rightarrow>
          if retval \<noteq> 0 \<or> GET_BOOTLOADERMODE (bl_status (bl_data ts')) \<noteq> 0 then
            (if tries < CY_DELAY_MAX then exit_bl_poll (tries + 1) ts'
             else (retval, tries + 1, ts'))
          else (retval, tries, ts'))"
  by pat_completeness auto
termination
  by (relation "measure (\<lambda>(tries, _). CY_DELAY_MAX - tries)") auto

text \<open>
  \<^verbatim>\<open>cyttsp_exit_bl_mode\<close>. The stores of \<open>exit_bl_cmd\<close> past the end of \<^verbatim>\<open>bl_cmd\<close>
  hit other stack memory; the model goes on with the 11 bytes of the buffer.
\<close>

definition cyttsp_exit_bl_mode :: "cyttsp \<Rightarrow> int \<times> cyttsp" where
  "cyttsp_exit_bl_mode ts =
     (let bl_cmd = fst (exit_bl_cmd (bl_keys (platform_data ts)))
      in case ttsp_write_block_data ts CY_REG_BASE (of_nat (length bl_command)) (Some bl_cmd) of
           (retval, ts1) \<Rightarrow>
             if retval < 0 then (retval, ts1)
             else (case exit_bl_poll 0 ts1 of
                     (retval', tries, ts2) \<Rightarrow>
                       if tries \<ge> CY_DELAY_MAX then (- ENODEV, ts2) else (retval', ts2)))"

subsection \<open>Operational and system information mode\<close>

text \<open>
  \<^verbatim>\<open>struct cyttsp_xydata\<close> (packed, 32 bytes) by byte offset; a \<^verbatim>\<open>struct cyttsp_tch\<close>
  is 5 bytes: \<open>x\<close> and \<open>y\<close> big-endian, then \<open>z\<close>.
\<close>

definition xy_hst_mode :: "u8 list \<Rightarrow> u8" where "xy_hst_mode d = d ! 0"
definition xy_tt_mode :: "u8 list \<Rightarrow> u8" where "xy_tt_mode d = d ! 1"
definition xy_tt_stat :: "u8 list \<Rightarrow> u8" where "xy_tt_stat d = d ! 2"
definition xy_tch1 :: "u8 list \<Rightarrow> u8 list" where "xy_tch1 d = take 5 (drop 3 d)"
definition xy_touch12_id :: "u8 list \<Rightarrow> u8" where "xy_touch12_id d = d ! 8"
definition xy_tch2 :: "u8 list \<Rightarrow> u8 list" where "xy_tch2 d = take 5 (drop 9 d)"
definition xy_tch3 :: "u8 list \<Rightarrow> u8 list" where "xy_tch3 d = take 5 (drop 16 d)"
definition xy_touch34_id :: "u8 list \<Rightarrow> u8" where "xy_touch34_id d = d ! 21"
definition xy_tch4 :: "u8 list \<Rightarrow> u8 list" where "xy_tch4 d = take 5 (drop 22 d)"
definition xy_act_dist :: "u8 list \<Rightarrow> u8" where "xy_act_dist d = d ! 30"

text \<open>\<^verbatim>\<open>struct cyttsp_sysinfo_data\<close> (32 bytes): the two version bytes the core reads.\<close>

definition si_tts_verh :: "u8 list \<Rightarrow> u8" where "si_tts_verh d = d ! 17"
definition si_tts_verl :: "u8 list \<Rightarrow> u8" where "si_tts_verl d = d ! 18"

definition local_xydata :: "cyttsp \<Rightarrow> u8 list" where
  "local_xydata ts = map (junk ts) [0..<unat sizeof_xydata]"

function operational_poll :: "nat \<Rightarrow> u8 list \<Rightarrow> cyttsp \<Rightarrow> int \<times> nat \<times> cyttsp" where
  "operational_poll tries xy_data ts =
     (case ttsp_read_block_data ts CY_REG_BASE sizeof_xydata (Some xy_data) of
        (retval, buf, ts') \<Rightarrow>
          (let xy_data' = (case buf of Some b \<Rightarrow> b | None \<Rightarrow> xy_data)
           in if retval \<noteq> 0 \<or> xy_act_dist xy_data' \<noteq> CY_ACT_DIST_DFLT then
                (if tries < CY_DELAY_MAX then operational_poll (tries + 1) xy_data' ts'
                 else (retval, tries + 1, ts'))
              else (retval, tries, ts')))"
  by pat_completeness auto
termination
  by (relation "measure (\<lambda>(tries, _). CY_DELAY_MAX - tries)") auto

definition cyttsp_set_operational_mode :: "cyttsp \<Rightarrow> int \<times> cyttsp" where
  "cyttsp_set_operational_mode ts =
     (case ttsp_write_block_data ts CY_REG_BASE 1 (Some [CY_OPERATE_MODE]) of
        (retval, ts1) \<Rightarrow>
          if retval < 0 then (retval, ts1)
          else (case operational_poll 0 (local_xydata ts1) ts1 of
                  (retval', tries, ts2) \<Rightarrow>
                    if tries \<ge> CY_DELAY_MAX then (- EAGAIN, ts2) else (retval', ts2)))"

function sysinfo_poll :: "nat \<Rightarrow> cyttsp \<Rightarrow> int \<times> nat \<times> cyttsp" where
  "sysinfo_poll tries ts =
     (case ttsp_read_block_data (msleep CY_DELAY_DFLT ts) CY_REG_BASE sizeof_sysinfo_data
             (Some (sysinfo_data ts)) of
        (retval, buf, ts1) \<Rightarrow>
          (let ts' = (case buf of Some b \<Rightarrow> ts1\<lparr>sysinfo_data := b\<rparr> | None \<Rightarrow> ts1)
           in if retval \<noteq> 0 \<or>
                 (si_tts_verh (sysinfo_data ts') = 0 \<and> si_tts_verl (sysinfo_data ts') = 0) then
                (if tries < CY_DELAY_MAX then sysinfo_poll (tries + 1) ts'
                 else (retval, tries + 1, ts'))
              else (retval, tries, ts')))"
  by pat_completeness auto
termination
  by (relation "measure (\<lambda>(tries, _). CY_DELAY_MAX - tries)") auto

definition cyttsp_set_sysinfo_mode :: "cyttsp \<Rightarrow> int \<times> cyttsp" where
  "cyttsp_set_sysinfo_mode ts =
     (let ts0 = ts\<lparr>sysinfo_data := replicate (unat sizeof_sysinfo_data) 0\<rparr>
      in case ttsp_write_block_data ts0 CY_REG_BASE 1 (Some [CY_SYSINFO_MODE]) of
           (retval, ts1) \<Rightarrow>
             if retval < 0 then (retval, ts1)
             else (case sysinfo_poll 0 ts1 of
                     (retval', tries, ts2) \<Rightarrow>
                       if tries \<ge> CY_DELAY_MAX then (- EAGAIN, ts2) else (retval', ts2)))"

definition cyttsp_set_sysinfo_regs :: "cyttsp \<Rightarrow> int \<times> cyttsp" where
  "cyttsp_set_sysinfo_regs ts =
     (if act_intrvl (platform_data ts) \<noteq> CY_ACT_INTRVL_DFLT \<or>
         tch_tmout (platform_data ts) \<noteq> CY_TCH_TMOUT_DFLT \<or>
         lp_intrvl (platform_data ts) \<noteq> CY_LP_INTRVL_DFLT then
        (let intrvl_ray = [act_intrvl (platform_data ts), tch_tmout (platform_data ts),
                           lp_intrvl (platform_data ts)]
         in case ttsp_write_block_data ts CY_REG_ACT_INTRVL 3 (Some intrvl_ray) of
              (retval, ts1) \<Rightarrow> (retval, msleep CY_DELAY_DFLT ts1))
      else (0, ts))"

text \<open>
  \<^verbatim>\<open>cyttsp_soft_reset\<close>: the wait for the interrupt is an event, and its result is the
  environment's \<open>bl_ready_wait\<close>.
\<close>

definition cyttsp_soft_reset :: "cyttsp \<Rightarrow> int \<times> cyttsp" where
  "cyttsp_soft_reset ts =
     (case ttsp_write_block_data ts CY_REG_BASE 1 (Some [CY_SOFT_RESET_MODE]) of
        (retval, ts1) \<Rightarrow>
          if retval < 0 then (retval, ts1)
          else (bl_ready_wait ts1, emit (WaitBlReady (CY_DELAY_DFLT * CY_DELAY_MAX)) ts1))"

definition cyttsp_act_dist_setup :: "cyttsp \<Rightarrow> int \<times> cyttsp" where
  "cyttsp_act_dist_setup ts =
     ttsp_write_block_data ts CY_REG_ACT_DIST 1 (Some [act_dist (platform_data ts)])"

section \<open>Touch frame decoder and slot tracker\<close>

definition cyttsp_hndshk :: "cyttsp \<Rightarrow> u8 \<Rightarrow> int \<times> cyttsp" where
  "cyttsp_hndshk ts hst_mode =
     (let cmd = hst_mode XOR CY_HNDSHK_BIT
      in ttsp_write_block_data ts CY_REG_BASE 1 (Some [cmd]))"

definition cyttsp_report_slot :: "cyttsp \<Rightarrow> int \<Rightarrow> int \<Rightarrow> int \<Rightarrow> int \<Rightarrow> cyttsp" where
  "cyttsp_report_slot ts slot x y z = emit (ReportSlot slot x y z) ts"

definition cyttsp_report_slot_empty :: "cyttsp \<Rightarrow> int \<Rightarrow> cyttsp" where
  "cyttsp_report_slot_empty ts slot = emit (ReportSlotEmpty slot) ts"

definition cyttsp_extract_track_ids :: "u8 list \<Rightarrow> int list" where
  "cyttsp_extract_track_ids xy_data =
     [uint (drop_bit 4 (xy_touch12_id xy_data)),
      uint (xy_touch12_id xy_data AND 0xF),
      uint (drop_bit 4 (xy_touch34_id xy_data)),
      uint (xy_touch34_id xy_data AND 0xF)]"

definition cyttsp_get_tch :: "u8 list \<Rightarrow> nat \<Rightarrow> u8 list option" where
  "cyttsp_get_tch xy_data idx =
     (if idx = 0 then Some (xy_tch1 xy_data)
      else if idx = 1 then Some (xy_tch2 xy_data)
      else if idx = 2 then Some (xy_tch3 xy_data)
      else if idx = 3 then Some (xy_tch4 xy_data)
      else None)"

text \<open>A \<^verbatim>\<open>__be16\<close> field is two bytes, the high one first.\<close>

definition be16_to_cpu :: "u8 \<Rightarrow> u8 \<Rightarrow> int" where
  "be16_to_cpu hi lo = uint hi * 256 + uint lo"

definition tch_x :: "u8 list \<Rightarrow> int" where "tch_x t = be16_to_cpu (t ! 0) (t ! 1)"
definition tch_y :: "u8 list \<Rightarrow> int" where "tch_y t = be16_to_cpu (t ! 2) (t ! 3)"
definition tch_z :: "u8 list \<Rightarrow> int" where "tch_z t = uint (t ! 4)"

text \<open>
  The loop \<^verbatim>\<open>for (i = 0; i < num_cur_tch; i++)\<close> of \<^verbatim>\<open>cyttsp_handle_tchdata\<close>,
  entered with the current \<open>i\<close> and \<open>used\<close>. \<^verbatim>\<open>cyttsp_get_tch\<close> gives \<^verbatim>\<open>NULL\<close> only
  from index 4 on, which the loop never reaches (\<open>num_cur_tch\<close> is at most
  \<open>CY_MAX_FINGER\<close> there); the model reports nothing for such an index.
\<close>

function touch_loop :: "nat \<Rightarrow> nat \<Rightarrow> u8 list \<Rightarrow> int list \<Rightarrow> int \<Rightarrow> cyttsp \<Rightarrow> int \<times> cyttsp" where
  "touch_loop i num_cur_tch xy_data ids used ts =
     (if i < num_cur_tch then
        touch_loop (i + 1) num_cur_tch xy_data ids (used OR push_bit (nat (ids ! i)) 1)
          (case cyttsp_get_tch xy_data i of
             Some tch \<Rightarrow> cyttsp_report_slot ts (ids ! i) (tch_x tch) (tch_y tch) (tch_z tch)
           | None \<Rightarrow> ts)
      else (used, ts))"
  by pat_completeness auto
termination
  by (relation "measure (\<lambda>(i, num_cur_tch, _). num_cur_tch - i)") auto

text \<open>The loop \<^verbatim>\<open>for (i = 0; i < CY_MAX_ID; i++)\<close> over the slots.\<close>

function empty_loop :: "nat \<Rightarrow> int \<Rightarrow> cyttsp \<Rightarrow> cyttsp" where
  "empty_loop i used ts =
     (if i < CY_MAX_ID then
        empty_loop (i + 1) used
          (if used AND push_bit i 1 = 0 then cyttsp_report_slot_empty ts (int i) else ts)
      else ts)"
  by pat_completeness auto
termination
  by (relation "measure (\<lambda>(i, _). CY_MAX_ID - i)") auto

definition cyttsp_handle_tchdata :: "cyttsp \<Rightarrow> int \<times> cyttsp" where
  "cyttsp_handle_tchdata ts =
     (case ttsp_read_block_data ts CY_REG_BASE sizeof_xydata (Some (local_xydata ts)) of
        (rd, buf, ts1) \<Rightarrow>
          if rd \<noteq> 0 then (0, ts1)
          else
            (let xy_data = (case buf of Some b \<Rightarrow> b | None \<Rightarrow> local_xydata ts)
             in case (if use_hndshk (platform_data ts1)
                      then cyttsp_hndshk ts1 (xy_hst_mode xy_data) else (0, ts1)) of
                  (hs, ts2) \<Rightarrow>
                    if hs \<noteq> 0 then (0, ts2)
                    else if power_state ts2 = CY_IDLE_STATE then (0, ts2)
                    else if GET_BOOTLOADERMODE (xy_tt_mode xy_data) \<noteq> 0 then (- 1, ts2)
                    else
                      (let num_cur_tch =
                             (if IS_LARGE_AREA (xy_tt_stat xy_data) = 1 then 0
                              else if unat (GET_NUM_TOUCHES (xy_tt_stat xy_data)) > CY_MAX_FINGER
                                then 0
                              else if IS_BAD_PKT (xy_tt_mode xy_data) \<noteq> 0 then 0
                              else GET_NUM_TOUCHES (xy_tt_stat xy_data));
                           ids = cyttsp_extract_track_ids xy_data
                       in case touch_loop 0 (unat num_cur_tch) xy_data ids 0 ts2 of
                            (used, ts3) \<Rightarrow> (0, emit InputSync (empty_loop 0 used ts3)))))"

text \<open>
  \<^verbatim>\<open>cyttsp_irq\<close>, the threaded interrupt handler; \<^verbatim>\<open>cyttsp_pr_state\<close> only prints.
\<close>

definition cyttsp_irq :: "cyttsp \<Rightarrow> cyttsp" where
  "cyttsp_irq ts =
     (if power_state ts = CY_BL_STATE then emit CompleteBlReady ts
      else
        (case cyttsp_handle_tchdata ts of
           (retval, ts1) \<Rightarrow>
             if retval < 0 then
               (case cyttsp_exit_bl_mode ts1 of
                  (retval', ts2) \<Rightarrow>
                    if retval' \<noteq> 0 then ts2\<lparr>power_state := CY_IDLE_STATE\<rparr>
                    else ts2\<lparr>power_state := CY_ACTIVE_STATE\<rparr>)
             else ts1))"

section \<open>Attach and suspend\<close>

text \<open>\<^verbatim>\<open>cyttsp_power_on\<close> from the label \<^verbatim>\<open>no_bl_bypass\<close> on.\<close>

definition no_bl_bypass :: "cyttsp \<Rightarrow> int \<times> cyttsp" where
  "no_bl_bypass ts =
     (case cyttsp_set_sysinfo_mode ts of
        (r4, ts4) \<Rightarrow>
          if r4 < 0 then (r4, ts4)
          else (case cyttsp_set_sysinfo_regs ts4 of
            (r5, ts5) \<Rightarrow>
              if r5 < 0 then (r5, ts5)
              else (case cyttsp_set_operational_mode ts5 of
                (r6, ts6) \<Rightarrow>
                  if r6 < 0 then (r6, ts6)
                  else (case cyttsp_act_dist_setup ts6 of
                    (r7, ts7) \<Rightarrow>
                      if r7 < 0 then (r7, ts7)
                      else (0, ts7\<lparr>power_state := CY_ACTIVE_STATE\<rparr>)))))"

text \<open>
  \<^verbatim>\<open>cyttsp_power_on\<close> on a session that is not \<^verbatim>\<open>NULL\<close>. The interrupts that arrive
  while it runs are not part of the model: the wait of the soft reset gets its result from
  the environment.
\<close>

definition power_on_session :: "cyttsp \<Rightarrow> int \<times> cyttsp" where
  "power_on_session ts =
     (let ts0 = ts\<lparr>power_state := CY_BL_STATE\<rparr>
      in if irq_request ts0 < 0 then (irq_request ts0, ts0)
         else (case cyttsp_soft_reset ts0 of
           (r1, ts1) \<Rightarrow>
             if r1 = 0 then (r1, ts1)
             else (case cyttsp_bl_app_valid ts1 of
               (r2, ts2) \<Rightarrow>
                 if r2 < 0 then (r2, ts2)
                 else if r2 > 0 then no_bl_bypass ts2
                 else (case cyttsp_exit_bl_mode ts2 of
                   (r3, ts3) \<Rightarrow>
                     if r3 < 0 then (r3, ts3)
                     else no_bl_bypass (ts3\<lparr>power_state := CY_IDLE_STATE\<rparr>)))))"

definition cyttsp_power_on :: "cyttsp option \<Rightarrow> int \<times> cyttsp option" where
  "cyttsp_power_on handle =
     (case handle of
        None \<Rightarrow> (- ENOMEM, None)
      | Some ts \<Rightarrow> (case power_on_session ts of (retval, ts') \<Rightarrow> (retval, Some ts')))"

definition cyttsp_suspend :: "cyttsp \<Rightarrow> int \<times> cyttsp" where
  "cyttsp_suspend ts =
     (if use_sleep (platform_data ts) \<and> power_state ts = CY_ACTIVE_STATE then
        (let sleep_mode = (of_bool (use_sleep (platform_data ts)) :: u8)
         in case ttsp_write_block_data ts CY_REG_BASE 1 (Some [sleep_mode]) of
              (retval, ts1) \<Rightarrow>
                if retval \<ge> 0 then (retval, ts1\<lparr>power_state := CY_SLEEP_STATE\<rparr>)
                else (retval, ts1))
      else (0, ts))"

section \<open>Vocabulary of the properties\<close>

text \<open>
  Kinds of events, and steps of the driver that change nothing of the session but the
  count of bus calls and the trace, adding only events of one kind.
\<close>

fun is_read_event :: "event \<Rightarrow> bool" where
  "is_read_event (BusRead c l) = True"
| "is_read_event (Msleep n) = True"
| "is_read_event _ = False"

fun is_bus_event :: "event \<Rightarrow> bool" where
  "is_bus_event (BusRead c l) = True"
| "is_bus_event (BusWrite c l) = True"
| "is_bus_event (Msleep n) = True"
| "is_bus_event _ = False"

definition only_events :: "(event \<Rightarrow> bool) \<Rightarrow> cyttsp \<Rightarrow> cyttsp \<Rightarrow> bool" where
  "only_events P ts ts' \<longleftrightarrow>
     (\<exists>n es. ts' = ts\<lparr>ncalls := n, trace := trace ts @ es\<rparr> \<and> list_all P es)"


fun is_input_event :: "event \<Rightarrow> bool" where
  "is_input_event (ReportSlot s x y z) = True"
| "is_input_event (ReportSlotEmpty s) = True"
| "is_input_event InputSync = True"
| "is_input_event _ = False"

text \<open>
  A step that may refresh the two register snapshots and use the bus, and does nothing
  else: it reports nothing to the input core and leaves the power state, the platform
  data and the environment as they are.
\<close>

definition session_step :: "cyttsp \<Rightarrow> cyttsp \<Rightarrow> bool" where
  "session_step ts ts' \<longleftrightarrow>
     (\<exists>bd sd n es.
        ts' = ts\<lparr>bl_data := bd, sysinfo_data := sd, ncalls := n, trace := trace ts @ es\<rparr> \<and>
        list_all (\<lambda>e. \<not> is_input_event e) es)"

text \<open>The events a step added to the trace.\<close>

definition new_events :: "cyttsp \<Rightarrow> cyttsp \<Rightarrow> event list" where
  "new_events ts ts' = drop (length (trace ts)) (trace ts')"

text \<open>The bus writes among some events, as (register, bytes), in order.\<close>

fun writes_of :: "event list \<Rightarrow> (u8 \<times> u8 list) list" where
  "writes_of [] = []"
| "writes_of (BusWrite c b # es) = (c, b) # writes_of es"
| "writes_of (e # es) = writes_of es"

text \<open>\<open>k\<close> failed attempts: each is the bus call followed by the delay.\<close>

definition retry_trace :: "event \<Rightarrow> nat \<Rightarrow> event list" where
  "retry_trace e k = concat (replicate k [e, Msleep CY_DELAY_DFLT])"

text \<open>
  One pass through the body of the poll loop of \<^verbatim>\<open>cyttsp_exit_bl_mode\<close> (the delay,
  then the re-read of the bootloader registers), whether the pass shows the bootloader
  left, and the session after \<open>n\<close> passes.
\<close>

definition bl_poll :: "cyttsp \<Rightarrow> int \<times> cyttsp" where
  "bl_poll ts = cyttsp_load_bl_regs (msleep CY_DELAY_DFLT ts)"

definition bl_poll_ok :: "int \<times> cyttsp \<Rightarrow> bool" where
  "bl_poll_ok p \<longleftrightarrow> fst p = 0 \<and> GET_BOOTLOADERMODE (bl_status (bl_data (snd p))) = 0"

fun after_polls :: "nat \<Rightarrow> cyttsp \<Rightarrow> cyttsp" where
  "after_polls 0 ts = ts"
| "after_polls (Suc n) ts = after_polls n (snd (bl_poll ts))"

subsection \<open>Example sessions\<close>

definition example_platform_data :: cyttsp_platform_data where
  "example_platform_data =
     \<lparr>use_hndshk = False, use_sleep = True, act_dist = CY_ACT_DIST_DFLT,
      act_intrvl = CY_ACT_INTRVL_DFLT, tch_tmout = CY_TCH_TMOUT_DFLT,
      lp_intrvl = CY_LP_INTRVL_DFLT, bl_keys = None\<rparr>"

definition example_session :: "(nat \<Rightarrow> bus_resp) \<Rightarrow> cyttsp" where
  "example_session b =
     \<lparr>platform_data = example_platform_data, bl_data = replicate 16 0,
      sysinfo_data = replicate 32 0, power_state = CY_ACTIVE_STATE, bus = b, ncalls = 0,
      trace = [], irq_request = 0, bl_ready_wait = 1, junk = (\<lambda>_. 0)\<rparr>"

text \<open>A bus that fails \<open>k\<close> times with \<open>-EIO\<close> and then answers 0 with the bytes \<open>d\<close>.\<close>

definition glitchy_bus :: "nat \<Rightarrow> u8 list \<Rightarrow> nat \<Rightarrow> bus_resp" where
  "glitchy_bus k d n = (if n < k then \<lparr>rc = - EIO, rdata = []\<rparr> else \<lparr>rc = 0, rdata = d\<rparr>)"

text \<open>A bus that answers the \<open>n\<close>-th call from a script, and fails with \<open>-EIO\<close> after it.\<close>

definition scripted_bus :: "bus_resp list \<Rightarrow> nat \<Rightarrow> bus_resp" where
  "scripted_bus rs n = (if n < length rs then rs ! n else \<lparr>rc = - EIO, rdata = []\<rparr>)"

definition ok :: "u8 list \<Rightarrow> bus_resp" where
  "ok d = \<lparr>rc = 0, rdata = d\<rparr>"

text \<open>
  A frame of the operational mode with two touches: track 3 at (100, 200) with z = 50 and
  track 9 at (400, 10) with z = 5; and a frame that has the bootloader bit set.
\<close>

definition two_touch_frame :: "u8 list" where
  "two_touch_frame =
     [0x00, 0x00, 0x02,
      0x00, 0x64, 0x00, 0xC8, 0x32,
      0x39,
      0x01, 0x90, 0x00, 0x0A, 0x05,
      0x00, 0x00,
      0x00, 0x00, 0x00, 0x00, 0x00,
      0x00,
      0x00, 0x00, 0x00, 0x00, 0x00,
      0x00, 0x00, 0x00, 0xF8, 0x00]"

definition bootloader_frame :: "u8 list" where
  "bootloader_frame = 0x00 # 0x10 # replicate 30 0x00"

text \<open>
  System information registers with the TTSP version 1.2, and the answers of a device
  that runs its application already: to the soft reset, the status read, the mode write,
  the system information read, the mode write, the frame read and the active-distance
  write of an attach.
\<close>

definition sysinfo_regs :: "u8 list" where
  "sysinfo_regs =
     [0x00, 0x00, 0x00, 0x00, 0x00, 0x00, 0x00, 0x00,
      0x00, 0x00, 0x00, 0x00, 0x00, 0x00, 0x00, 0x00,
      0x00, 0x01, 0x02, 0x00, 0x00, 0x00, 0x00, 0x00,
      0x00, 0x00, 0x00, 0x00, 0x00, 0x00, 0x00, 0x00]"

definition attach_script :: "bus_resp list" where
  "attach_script =
     [ok [], ok [0x00, 0x00], ok [], ok sysinfo_regs, ok [], ok two_touch_frame, ok []]"

text \<open>The example session with the handshake configured.\<close>

definition handshake_session :: "(nat \<Rightarrow> bus_resp) \<Rightarrow> cyttsp" where
  "handshake_session b =
     (example_session b)\<lparr>platform_data := example_platform_data\<lparr>use_hndshk := True\<rparr>\<rparr>"

section \<open>The retrying transport\<close>

declare read_loop.simps [simp del] write_loop.simps [simp del]

lemma only_events_refl: "only_events P ts ts"
  unfolding only_events_def by (rule exI [of _ "ncalls ts"], rule exI [of _ "[]"]) simp

lemma only_events_trans:
  assumes "only_events P a b" and "only_events P b c"
  shows "only_events P a c"
proof -
  from assms(1) obtain n es where
    b: "b = a\<lparr>ncalls := n, trace := trace a @ es\<rparr>" and es: "list_all P es"
    unfolding only_events_def by blast
  from assms(2) obtain n' es' where
    c: "c = b\<lparr>ncalls := n', trace := trace b @ es'\<rparr>" and es': "list_all P es'"
    unfolding only_events_def by blast
  have "c = a\<lparr>ncalls := n', trace := trace a @ (es @ es')\<rparr>"
    by (simp add: b c)
  moreover have "list_all P (es @ es')" using es es' by simp
  ultimately show ?thesis unfolding only_events_def by blast
qed

lemma only_events_emit: "P e \<Longrightarrow> only_events P ts (emit e ts)"
  unfolding only_events_def emit_def
  by (rule exI [of _ "ncalls ts"], rule exI [of _ "[e]"]) simp

lemma only_events_call: "P e \<Longrightarrow> only_events P ts (emit e (ts\<lparr>ncalls := n\<rparr>))"
  unfolding only_events_def emit_def
  by (rule exI [of _ n], rule exI [of _ "[e]"]) simp

lemma only_events_then_emit:
  "only_events P a b \<Longrightarrow> P e \<Longrightarrow> only_events P a (emit e b)"
  by (blast intro: only_events_trans only_events_emit)

lemma read_loop_only_events:
  assumes "P (BusRead c l)" and "P (Msleep CY_DELAY_DFLT)"
  shows "only_events P ts (snd (snd (read_loop tries retval ts c l buf)))"
  using assms
proof (induction tries retval ts c l buf rule: read_loop.induct)
  case (1 tries retval ts command len buf)
  show ?case
  proof (cases "tries < CY_NUM_RETRY \<and> retval < 0")
    case False
    then show ?thesis by (subst read_loop.simps) (auto simp: only_events_refl)
  next
    case True
    obtain r b t where br: "bus_read ts command len buf = (r, b, t)"
      by (cases "bus_read ts command len buf")
    have t: "only_events P ts t"
      using br "1.prems" by (auto simp: bus_read_def Let_def intro: only_events_call)
    let ?t = "if r \<noteq> 0 then msleep CY_DELAY_DFLT t else t"
    have t': "only_events P ts ?t"
      using t "1.prems" by (simp add: msleep_def only_events_then_emit)
    have "only_events P ?t (snd (snd (read_loop (tries + 1) r ?t command len b)))"
      using "1.IH" [OF True br [symmetric] refl "1.prems"] .
    with t' show ?thesis
      using True br by (subst read_loop.simps) (auto intro: only_events_trans)
  qed
qed

lemma write_loop_only_events:
  assumes "P (BusWrite c (take (unat l) buf))" and "P (Msleep CY_DELAY_DFLT)"
  shows "only_events P ts (snd (write_loop tries retval ts c l buf))"
  using assms
proof (induction tries retval ts c l buf rule: write_loop.induct)
  case (1 tries retval ts command len buf)
  show ?case
  proof (cases "tries < CY_NUM_RETRY \<and> retval < 0")
    case False
    then show ?thesis by (subst write_loop.simps) (auto simp: only_events_refl)
  next
    case True
    obtain r t where br: "bus_write ts command len buf = (r, t)"
      by (cases "bus_write ts command len buf")
    have t: "only_events P ts t"
      using br "1.prems" by (auto simp: bus_write_def Let_def intro: only_events_call)
    let ?t = "if r \<noteq> 0 then msleep CY_DELAY_DFLT t else t"
    have t': "only_events P ts ?t"
      using t "1.prems" by (simp add: msleep_def only_events_then_emit)
    have "only_events P ?t (snd (write_loop (tries + 1) r ?t command len buf))"
      using "1.IH" [OF True br [symmetric] "1.prems"] .
    with t' show ?thesis
      using True br by (subst write_loop.simps) (auto intro: only_events_trans)
  qed
qed

lemma ttsp_read_only_events:
  assumes "P (BusRead c l)" and "P (Msleep CY_DELAY_DFLT)"
  shows "only_events P ts (snd (snd (ttsp_read_block_data ts c l buf)))"
proof (cases buf)
  case None
  then show ?thesis by (simp add: ttsp_read_block_data_def only_events_refl)
next
  case (Some b)
  show ?thesis
    using read_loop_only_events [OF assms, of ts 0 "- 1" b]
    by (cases "read_loop 0 (- 1) ts c l b")
      (simp add: ttsp_read_block_data_def Some only_events_refl)
qed

lemma ttsp_write_only_events:
  assumes "\<And>b. buf = Some b \<Longrightarrow> P (BusWrite c (take (unat l) b))"
    and "P (Msleep CY_DELAY_DFLT)"
  shows "only_events P ts (snd (ttsp_write_block_data ts c l buf))"
proof (cases buf)
  case None
  then show ?thesis by (simp add: ttsp_write_block_data_def only_events_refl)
next
  case (Some b)
  show ?thesis
    using write_loop_only_events [OF assms(1) [OF Some] assms(2), of ts 0 "- 1"]
    by (simp add: ttsp_write_block_data_def Some only_events_refl)
qed

text \<open>A write that passes the argument check starts with its bus call.\<close>

lemma ttsp_write_first_event:
  assumes "len \<noteq> 0"
  shows "\<exists>n es. snd (ttsp_write_block_data ts c len (Some buf)) =
           ts\<lparr>ncalls := n, trace := trace ts @ BusWrite c (take (unat len) buf) # es\<rparr> \<and>
           list_all (\<lambda>e. e = BusWrite c (take (unat len) buf) \<or> e = Msleep CY_DELAY_DFLT) es"
proof -
  let ?W = "BusWrite c (take (unat len) buf)"
  let ?P = "\<lambda>e. e = ?W \<or> e = Msleep CY_DELAY_DFLT"
  let ?t1 = "emit ?W (ts\<lparr>ncalls := Suc (ncalls ts)\<rparr>)"
  let ?r = "rc (bus ts (ncalls ts))"
  let ?t2 = "if ?r \<noteq> 0 then msleep CY_DELAY_DFLT ?t1 else ?t1"
  have step: "write_loop 0 (- 1) ts c len buf = write_loop 1 ?r ?t2 c len buf"
    by (subst write_loop.simps) (simp add: bus_write_def Let_def CY_NUM_RETRY_def)
  have "only_events ?P ?t1 ?t2"
    by (simp add: msleep_def only_events_emit only_events_refl)
  moreover have "only_events ?P ?t2 (snd (write_loop 1 ?r ?t2 c len buf))"
    by (rule write_loop_only_events) simp_all
  ultimately have "only_events ?P ?t1 (snd (write_loop 0 (- 1) ts c len buf))"
    unfolding step by (rule only_events_trans)
  then obtain n es where
    "snd (write_loop 0 (- 1) ts c len buf) = ?t1\<lparr>ncalls := n, trace := trace ?t1 @ es\<rparr>"
    and "list_all ?P es"
    unfolding only_events_def by blast
  then show ?thesis
    using assms by (auto simp: ttsp_write_block_data_def emit_def)
qed

lemma retry_trace_Suc: "[e, Msleep CY_DELAY_DFLT] @ retry_trace e k = retry_trace e (Suc k)"
  by (simp add: retry_trace_def)

lemma read_loop_succeeds:
  "\<lbrakk>\<forall>i<k. rc (bus ts (ncalls ts + i)) < 0; rc (bus ts (ncalls ts + k)) = 0;
    tries + k < CY_NUM_RETRY; retval < 0\<rbrakk>
   \<Longrightarrow> fst (read_loop tries retval ts c l buf) = 0 \<and>
       snd (snd (read_loop tries retval ts c l buf)) =
         ts\<lparr>ncalls := ncalls ts + k + 1,
            trace := trace ts @ retry_trace (BusRead c l) k @ [BusRead c l]\<rparr>"
proof (induction k arbitrary: tries retval ts buf)
  case 0
  then show ?case
    by (simp add: read_loop.simps [of tries] read_loop.simps [of "Suc tries"]
        bus_read_def emit_def retry_trace_def Let_def)
next
  case (Suc k)
  let ?ts1 = "msleep CY_DELAY_DFLT (emit (BusRead c l) (ts\<lparr>ncalls := Suc (ncalls ts)\<rparr>))"
  let ?r = "rc (bus ts (ncalls ts))"
  let ?b = "store_bytes (take (unat l) (rdata (bus ts (ncalls ts)))) buf"
  from Suc.prems have r: "?r < 0" by (metis add.right_neutral zero_less_Suc)
  have step: "read_loop tries retval ts c l buf = read_loop (Suc tries) ?r ?ts1 c l ?b"
    using Suc.prems r by (simp add: read_loop.simps [of tries] bus_read_def Let_def)
  have a: "\<forall>i<k. rc (bus ?ts1 (ncalls ?ts1 + i)) < 0"
    using Suc.prems(1) by (auto simp: msleep_def emit_def)
  have b: "rc (bus ?ts1 (ncalls ?ts1 + k)) = 0"
    using Suc.prems(2) by (simp add: msleep_def emit_def)
  have c: "Suc tries + k < CY_NUM_RETRY" using Suc.prems(3) by simp
  show ?case
    unfolding step using Suc.IH [OF a b c r, of ?b]
    by (simp add: msleep_def emit_def retry_trace_Suc [symmetric] del: replicate.simps)
qed

lemma write_loop_succeeds:
  "\<lbrakk>\<forall>i<k. rc (bus ts (ncalls ts + i)) < 0; rc (bus ts (ncalls ts + k)) = 0;
    tries + k < CY_NUM_RETRY; retval < 0\<rbrakk>
   \<Longrightarrow> write_loop tries retval ts c l buf =
         (0, ts\<lparr>ncalls := ncalls ts + k + 1,
                trace := trace ts @ retry_trace (BusWrite c (take (unat l) buf)) k
                           @ [BusWrite c (take (unat l) buf)]\<rparr>)"
proof (induction k arbitrary: tries retval ts)
  case 0
  then show ?case
    by (simp add: write_loop.simps [of tries] write_loop.simps [of "Suc tries"]
        bus_write_def emit_def retry_trace_def Let_def)
next
  case (Suc k)
  let ?e = "BusWrite c (take (unat l) buf)"
  let ?ts1 = "msleep CY_DELAY_DFLT (emit ?e (ts\<lparr>ncalls := Suc (ncalls ts)\<rparr>))"
  let ?r = "rc (bus ts (ncalls ts))"
  from Suc.prems have r: "?r < 0" by (metis add.right_neutral zero_less_Suc)
  have step: "write_loop tries retval ts c l buf = write_loop (Suc tries) ?r ?ts1 c l buf"
    using Suc.prems r by (simp add: write_loop.simps [of tries] bus_write_def Let_def)
  have a: "\<forall>i<k. rc (bus ?ts1 (ncalls ?ts1 + i)) < 0"
    using Suc.prems(1) by (auto simp: msleep_def emit_def)
  have b: "rc (bus ?ts1 (ncalls ?ts1 + k)) = 0"
    using Suc.prems(2) by (simp add: msleep_def emit_def)
  have c: "Suc tries + k < CY_NUM_RETRY" using Suc.prems(3) by simp
  show ?case
    unfolding step using Suc.IH [OF a b c r]
    by (simp add: msleep_def emit_def retry_trace_Suc [symmetric] del: replicate.simps)
qed

lemma read_loop_fails:
  "\<lbrakk>\<forall>i<n. rc (bus ts (ncalls ts + i)) < 0; tries + n = CY_NUM_RETRY; retval < 0\<rbrakk>
   \<Longrightarrow> fst (read_loop tries retval ts c l buf) =
         (if n = 0 then retval else rc (bus ts (ncalls ts + n - 1))) \<and>
       snd (snd (read_loop tries retval ts c l buf)) =
         ts\<lparr>ncalls := ncalls ts + n, trace := trace ts @ retry_trace (BusRead c l) n\<rparr>"
proof (induction n arbitrary: tries retval ts buf)
  case 0
  then show ?case
    by (simp add: read_loop.simps [of CY_NUM_RETRY] retry_trace_def)
next
  case (Suc n)
  let ?ts1 = "msleep CY_DELAY_DFLT (emit (BusRead c l) (ts\<lparr>ncalls := Suc (ncalls ts)\<rparr>))"
  let ?r = "rc (bus ts (ncalls ts))"
  let ?b = "store_bytes (take (unat l) (rdata (bus ts (ncalls ts)))) buf"
  from Suc.prems have r: "?r < 0" by (metis add.right_neutral zero_less_Suc)
  have step: "read_loop tries retval ts c l buf = read_loop (Suc tries) ?r ?ts1 c l ?b"
    using Suc.prems r by (simp add: read_loop.simps [of tries] bus_read_def Let_def)
  have a: "\<forall>i<n. rc (bus ?ts1 (ncalls ?ts1 + i)) < 0"
    using Suc.prems(1) by (auto simp: msleep_def emit_def)
  have c: "Suc tries + n = CY_NUM_RETRY" using Suc.prems(2) by simp
  show ?case
    unfolding step using Suc.IH [OF a c r, of ?b]
    by (cases n) (simp_all add: msleep_def emit_def retry_trace_Suc [symmetric] del: replicate.simps)
qed

lemma write_loop_fails:
  "\<lbrakk>\<forall>i<n. rc (bus ts (ncalls ts + i)) < 0; tries + n = CY_NUM_RETRY; retval < 0\<rbrakk>
   \<Longrightarrow> write_loop tries retval ts c l buf =
         ((if n = 0 then retval else rc (bus ts (ncalls ts + n - 1))),
          ts\<lparr>ncalls := ncalls ts + n,
             trace := trace ts @ retry_trace (BusWrite c (take (unat l) buf)) n\<rparr>)"
proof (induction n arbitrary: tries retval ts)
  case 0
  then show ?case
    by (simp add: write_loop.simps [of CY_NUM_RETRY] retry_trace_def)
next
  case (Suc n)
  let ?e = "BusWrite c (take (unat l) buf)"
  let ?ts1 = "msleep CY_DELAY_DFLT (emit ?e (ts\<lparr>ncalls := Suc (ncalls ts)\<rparr>))"
  let ?r = "rc (bus ts (ncalls ts))"
  from Suc.prems have r: "?r < 0" by (metis add.right_neutral zero_less_Suc)
  have step: "write_loop tries retval ts c l buf = write_loop (Suc tries) ?r ?ts1 c l buf"
    using Suc.prems r by (simp add: write_loop.simps [of tries] bus_write_def Let_def)
  have a: "\<forall>i<n. rc (bus ?ts1 (ncalls ?ts1 + i)) < 0"
    using Suc.prems(1) by (auto simp: msleep_def emit_def)
  have c: "Suc tries + n = CY_NUM_RETRY" using Suc.prems(2) by simp
  show ?case
    unfolding step using Suc.IH [OF a c r]
    by (cases n) (simp_all add: msleep_def emit_def retry_trace_Suc [symmetric] del: replicate.simps)
qed


text \<open>
  C5. A block read or write with a buffer and a nonzero length: when the bus fails \<open>k < 4\<close>
  times (a negative result) and then succeeds (result 0), the call returns 0 after exactly
  \<open>k + 1\<close> bus calls, a delay of \<open>CY_DELAY_DFLT\<close> after each of the \<open>k\<close> failed ones and
  none after the last; when the bus fails 4 times in a row, the call returns the error of
  the fourth bus call after exactly 4 bus calls.
\<close>

theorem retry_transport_bounded:
  assumes len: "len \<noteq> 0"
  shows "(k < CY_NUM_RETRY \<and> (\<forall>i<k. rc (bus ts (ncalls ts + i)) < 0) \<and>
          rc (bus ts (ncalls ts + k)) = 0 \<longrightarrow>
            fst (ttsp_read_block_data ts c len (Some buf)) = 0 \<and>
            snd (snd (ttsp_read_block_data ts c len (Some buf))) =
              ts\<lparr>ncalls := ncalls ts + k + 1,
                 trace := trace ts @ retry_trace (BusRead c len) k @ [BusRead c len]\<rparr> \<and>
            ttsp_write_block_data ts c len (Some buf) =
              (0, ts\<lparr>ncalls := ncalls ts + k + 1,
                     trace := trace ts @ retry_trace (BusWrite c (take (unat len) buf)) k
                                @ [BusWrite c (take (unat len) buf)]\<rparr>)) \<and>
         ((\<forall>i<CY_NUM_RETRY. rc (bus ts (ncalls ts + i)) < 0) \<longrightarrow>
            fst (ttsp_read_block_data ts c len (Some buf)) = rc (bus ts (ncalls ts + 3)) \<and>
            snd (snd (ttsp_read_block_data ts c len (Some buf))) =
              ts\<lparr>ncalls := ncalls ts + 4,
                 trace := trace ts @ retry_trace (BusRead c len) 4\<rparr> \<and>
            ttsp_write_block_data ts c len (Some buf) =
              (rc (bus ts (ncalls ts + 3)),
               ts\<lparr>ncalls := ncalls ts + 4,
                  trace := trace ts @ retry_trace (BusWrite c (take (unat len) buf)) 4\<rparr>))"
proof (intro conjI impI)
  assume h: "k < CY_NUM_RETRY \<and> (\<forall>i<k. rc (bus ts (ncalls ts + i)) < 0) \<and>
          rc (bus ts (ncalls ts + k)) = 0"
  then have k: "0 + k < CY_NUM_RETRY" by simp
  note rd = read_loop_succeeds [OF conjunct1 [OF conjunct2 [OF h]] conjunct2 [OF conjunct2 [OF h]] k,
      of "- 1" c len buf]
  show "fst (ttsp_read_block_data ts c len (Some buf)) = 0"
    using len rd by (cases "read_loop 0 (- 1) ts c len buf") (simp add: ttsp_read_block_data_def)
  show "snd (snd (ttsp_read_block_data ts c len (Some buf))) =
              ts\<lparr>ncalls := ncalls ts + k + 1,
                 trace := trace ts @ retry_trace (BusRead c len) k @ [BusRead c len]\<rparr>"
    using len rd by (cases "read_loop 0 (- 1) ts c len buf") (simp add: ttsp_read_block_data_def)
  show "ttsp_write_block_data ts c len (Some buf) =
              (0, ts\<lparr>ncalls := ncalls ts + k + 1,
                     trace := trace ts @ retry_trace (BusWrite c (take (unat len) buf)) k
                                @ [BusWrite c (take (unat len) buf)]\<rparr>)"
    using len write_loop_succeeds [OF conjunct1 [OF conjunct2 [OF h]] conjunct2 [OF conjunct2 [OF h]] k,
      of "- 1" c len buf]
    by (simp add: ttsp_write_block_data_def)
next
  assume h: "\<forall>i<CY_NUM_RETRY. rc (bus ts (ncalls ts + i)) < 0"
  have n: "0 + CY_NUM_RETRY = CY_NUM_RETRY" by simp
  have four: "CY_NUM_RETRY = 4" by (simp add: CY_NUM_RETRY_def)
  note rd = read_loop_fails [OF h n, of "- 1" c len buf]
  show "fst (ttsp_read_block_data ts c len (Some buf)) = rc (bus ts (ncalls ts + 3))"
    using len rd by (cases "read_loop 0 (- 1) ts c len buf") (simp add: ttsp_read_block_data_def four add.commute)
  show "snd (snd (ttsp_read_block_data ts c len (Some buf))) =
              ts\<lparr>ncalls := ncalls ts + 4,
                 trace := trace ts @ retry_trace (BusRead c len) 4\<rparr>"
    using len rd by (cases "read_loop 0 (- 1) ts c len buf") (simp add: ttsp_read_block_data_def four add.commute)
  show "ttsp_write_block_data ts c len (Some buf) =
              (rc (bus ts (ncalls ts + 3)),
               ts\<lparr>ncalls := ncalls ts + 4,
                  trace := trace ts @ retry_trace (BusWrite c (take (unat len) buf)) 4\<rparr>)"
    using len write_loop_fails [OF h n, of "- 1" c len buf]
    by (simp add: ttsp_write_block_data_def four add.commute)
qed

theorem retry_transport_bounded_witness:
  "ttsp_write_block_data (example_session (glitchy_bus 2 [])) 0 1 (Some [1]) =
     (0, (example_session (glitchy_bus 2 []))
           \<lparr>ncalls := 3,
            trace := [BusWrite 0 [1], Msleep 20, BusWrite 0 [1], Msleep 20, BusWrite 0 [1]]\<rparr>) \<and>
   ttsp_write_block_data (example_session (glitchy_bus 7 [])) 0 1 (Some [1]) =
     (- 5, (example_session (glitchy_bus 7 []))
           \<lparr>ncalls := 4,
            trace := [BusWrite 0 [1], Msleep 20, BusWrite 0 [1], Msleep 20,
                      BusWrite 0 [1], Msleep 20, BusWrite 0 [1], Msleep 20]\<rparr>)"
proof -
  let ?a = "example_session (glitchy_bus 2 [])"
  let ?b = "example_session (glitchy_bus 7 [])"
  have len: "(1::u8) \<noteq> 0" by simp
  have a: "2 < CY_NUM_RETRY \<and> (\<forall>i<2. rc (bus ?a (ncalls ?a + i)) < 0) \<and>
          rc (bus ?a (ncalls ?a + 2)) = 0"
    by (simp add: example_session_def glitchy_bus_def CY_NUM_RETRY_def EIO_def)
  have b: "\<forall>i<CY_NUM_RETRY. rc (bus ?b (ncalls ?b + i)) < 0"
    by (simp add: example_session_def glitchy_bus_def CY_NUM_RETRY_def EIO_def)
  have ra: "ttsp_write_block_data ?a 0 1 (Some [1]) =
              (0, ?a\<lparr>ncalls := ncalls ?a + 2 + 1,
                     trace := trace ?a @ retry_trace (BusWrite 0 (take (unat (1::u8)) [1])) 2
                                @ [BusWrite 0 (take (unat (1::u8)) [1])]\<rparr>)"
    using retry_transport_bounded [OF len, of 2 ?a 0 "[1]"] a by blast
  have rb: "ttsp_write_block_data ?b 0 1 (Some [1]) =
              (rc (bus ?b (ncalls ?b + 3)),
               ?b\<lparr>ncalls := ncalls ?b + 4,
                  trace := trace ?b @ retry_trace (BusWrite 0 (take (unat (1::u8)) [1])) 4\<rparr>)"
    using retry_transport_bounded [OF len, of 2 ?b 0 "[1]"] b by blast
  show ?thesis
    unfolding ra rb
    by (simp add: example_session_def glitchy_bus_def retry_trace_def CY_DELAY_DFLT_def
        EIO_def eval_nat_numeral)
qed

section \<open>Suspend\<close>

lemma new_events_append [simp]:
  "new_events ts (ts\<lparr>ncalls := n, trace := trace ts @ es\<rparr>) = es"
  by (simp add: new_events_def)

lemma new_events_power_state [simp]:
  "new_events ts (ts'\<lparr>power_state := p\<rparr>) = new_events ts ts'"
  by (simp add: new_events_def)

lemma writes_of_only:
  "list_all (\<lambda>e. e = BusWrite c b \<or> e = Msleep d) es \<Longrightarrow> set (writes_of es) \<subseteq> {(c, b)}"
  by (induction es rule: writes_of.induct) auto

text \<open>
  C8. \<^verbatim>\<open>cyttsp_suspend\<close> writes to the bus only when sleep is configured and the power
  state is active; then the state becomes sleep when the write does not fail (a result
  that is not negative) and stays active when it fails; in every other case it returns 0
  and leaves the session, the bus and the trace as they are.
\<close>

theorem suspend_power_state:
  "(if use_sleep (platform_data ts) \<and> power_state ts = CY_ACTIVE_STATE then
      fst (cyttsp_suspend ts) = fst (ttsp_write_block_data ts CY_REG_BASE 1 (Some [1])) \<and>
      power_state (snd (cyttsp_suspend ts)) =
        (if fst (cyttsp_suspend ts) \<ge> 0 then CY_SLEEP_STATE else CY_ACTIVE_STATE) \<and>
      (snd (cyttsp_suspend ts))\<lparr>power_state := CY_ACTIVE_STATE\<rparr> =
        snd (ttsp_write_block_data ts CY_REG_BASE 1 (Some [1])) \<and>
      writes_of (new_events ts (snd (cyttsp_suspend ts))) \<noteq> []
    else cyttsp_suspend ts = (0, ts) \<and> new_events ts (snd (cyttsp_suspend ts)) = [])"
proof (cases "use_sleep (platform_data ts) \<and> power_state ts = CY_ACTIVE_STATE")
  case False
  then show ?thesis by (auto simp: cyttsp_suspend_def new_events_def)
next
  case True
  obtain r t where w: "ttsp_write_block_data ts CY_REG_BASE 1 (Some [1]) = (r, t)"
    by (cases "ttsp_write_block_data ts CY_REG_BASE 1 (Some [1])")
  have one: "(1::u8) \<noteq> 0" by simp
  from ttsp_write_first_event [OF one, of ts CY_REG_BASE "[1]"] w
  obtain n es where t: "t = ts\<lparr>ncalls := n, trace := trace ts @ BusWrite CY_REG_BASE [1] # es\<rparr>"
    by auto
  have ps: "power_state t = CY_ACTIVE_STATE" using t True by simp
  have s: "cyttsp_suspend ts = (r, if r \<ge> 0 then t\<lparr>power_state := CY_SLEEP_STATE\<rparr> else t)"
    using True w by (simp add: cyttsp_suspend_def)
  have "writes_of (new_events ts t) \<noteq> []" by (simp add: t)
  then show ?thesis using True w s ps by (simp add: t)
qed


theorem suspend_power_state_witness:
  "fst (cyttsp_suspend (example_session (glitchy_bus 0 []))) = 0 \<and>
   power_state (snd (cyttsp_suspend (example_session (glitchy_bus 0 [])))) = CY_SLEEP_STATE \<and>
   cyttsp_suspend ((example_session (glitchy_bus 0 []))\<lparr>power_state := CY_IDLE_STATE\<rparr>) =
     (0, (example_session (glitchy_bus 0 []))\<lparr>power_state := CY_IDLE_STATE\<rparr>)"
proof -
  let ?a = "example_session (glitchy_bus 0 [])"
  let ?b = "?a\<lparr>power_state := CY_IDLE_STATE\<rparr>"
  have w: "ttsp_write_block_data ?a CY_REG_BASE 1 (Some [1]) =
             (0, ?a\<lparr>ncalls := 1, trace := [BusWrite 0 [1]]\<rparr>)"
    by (simp add: ttsp_write_block_data_def write_loop.simps bus_write_def emit_def
        example_session_def glitchy_bus_def CY_NUM_RETRY_def CY_REG_BASE_def)
  have a: "use_sleep (platform_data ?a) \<and> power_state ?a = CY_ACTIVE_STATE"
    by (simp add: example_session_def example_platform_data_def)
  have b: "\<not> (use_sleep (platform_data ?b) \<and> power_state ?b = CY_ACTIVE_STATE)"
    by simp
  from suspend_power_state [of ?a] a w
  have ra: "fst (cyttsp_suspend ?a) = 0 \<and>
            power_state (snd (cyttsp_suspend ?a)) = CY_SLEEP_STATE"
    by simp
  from suspend_power_state [of ?b] b have rb: "cyttsp_suspend ?b = (0, ?b)"
    by (simp only: if_False)
  show ?thesis using ra rb by simp
qed

text \<open>
  C10. When \<^verbatim>\<open>cyttsp_suspend\<close> writes to the bus (sleep configured, power state active),
  every write it makes goes to register 0x00 and carries the one byte that is the value of
  the \<open>use_sleep\<close> flag, which is 0x01: neither \<open>CY_DEEP_SLEEP_MODE\<close> nor
  \<open>CY_LOW_POWER_MODE\<close>.
\<close>

theorem suspend_writes_flag_value:
  assumes "use_sleep (platform_data ts)" and "power_state ts = CY_ACTIVE_STATE"
  shows "set (writes_of (new_events ts (snd (cyttsp_suspend ts)))) =
           {(0x00, [of_bool (use_sleep (platform_data ts))])} \<and>
         (of_bool (use_sleep (platform_data ts)) :: u8) = 0x01 \<and>
         (of_bool (use_sleep (platform_data ts)) :: u8) \<noteq> CY_DEEP_SLEEP_MODE \<and>
         (of_bool (use_sleep (platform_data ts)) :: u8) \<noteq> CY_LOW_POWER_MODE"
proof -
  obtain r t where w: "ttsp_write_block_data ts CY_REG_BASE 1 (Some [1]) = (r, t)"
    by (cases "ttsp_write_block_data ts CY_REG_BASE 1 (Some [1])")
  have one: "(1::u8) \<noteq> 0" by simp
  from ttsp_write_first_event [OF one, of ts CY_REG_BASE "[1]"] w
  obtain n es where t: "t = ts\<lparr>ncalls := n, trace := trace ts @ BusWrite CY_REG_BASE [1] # es\<rparr>"
    and es: "list_all (\<lambda>e. e = BusWrite CY_REG_BASE [1] \<or> e = Msleep CY_DELAY_DFLT) es"
    by auto
  have s: "cyttsp_suspend ts = (r, if r \<ge> 0 then t\<lparr>power_state := CY_SLEEP_STATE\<rparr> else t)"
    using assms w by (simp add: cyttsp_suspend_def)
  have "new_events ts (snd (cyttsp_suspend ts)) = BusWrite CY_REG_BASE [1] # es"
    by (simp add: s t)
  then have "set (writes_of (new_events ts (snd (cyttsp_suspend ts)))) = {(CY_REG_BASE, [1])}"
    using writes_of_only [OF es] by auto
  then show ?thesis
    using assms by (simp add: CY_REG_BASE_def CY_DEEP_SLEEP_MODE_def CY_LOW_POWER_MODE_def)
qed

theorem suspend_writes_flag_value_witness:
  "use_sleep (platform_data (example_session (glitchy_bus 1 []))) \<and>
   power_state (example_session (glitchy_bus 1 [])) = CY_ACTIVE_STATE \<and>
   set (writes_of (new_events (example_session (glitchy_bus 1 []))
          (snd (cyttsp_suspend (example_session (glitchy_bus 1 [])))))) = {(0x00, [0x01])}"
proof -
  let ?a = "example_session (glitchy_bus 1 [])"
  have a: "use_sleep (platform_data ?a)" and b: "power_state ?a = CY_ACTIVE_STATE"
    by (simp_all add: example_session_def example_platform_data_def)
  show ?thesis using suspend_writes_flag_value [OF a b] a b by simp
qed

section \<open>The bootloader\<close>

lemma and_push_bit_cases:
  "(x :: u8) AND push_bit n 1 = (if bit x n then push_bit n 1 else 0)"
  by (rule bit_word_eqI) (auto simp: bit_simps)

lemma and_16_cases: "(x :: u8) AND 0x10 = (if bit x 4 then 0x10 else 0)"
  using and_push_bit_cases [of x 4] by simp

lemma bootloadermode_bit: "GET_BOOTLOADERMODE x \<noteq> 0 \<longleftrightarrow> bit x 4"
  unfolding GET_BOOTLOADERMODE_def by (simp add: and_16_cases)

lemma valid_app_bit: "IS_VALID_APP x \<noteq> 0 \<longleftrightarrow> bit x 0"
  unfolding IS_VALID_APP_def
  by (simp add: bit_iff_and_push_bit_not_eq_0)

text \<open>
  C6. With keys given, the command buffer that \<^verbatim>\<open>cyttsp_exit_bl_mode\<close> builds holds the
  three fixed bytes and then the 8 key bytes, but the copy of the keys is
  \<^verbatim>\<open>sizeof(bl_command)\<close> = 11 bytes long from offset 3: it also stores the three bytes
  that follow the keys in memory at the indices 11, 12 and 13, past the end of the 11-byte
  buffer.
\<close>

theorem exit_bl_cmd_stores_past_end:
  "exit_bl_cmd (Some m) =
     ([0x00, 0xFF, 0xA5, m 0, m 1, m 2, m 3, m 4, m 5, m 6, m 7],
      [(11, m 8), (12, m 9), (13, m 10)])"
  by (simp add: exit_bl_cmd_def memcpy_at_def memcpy_writes_def bl_command_def
      CY_NUM_BL_KEYS_def upt_rec eval_nat_numeral)


subsection \<open>Steps that only use the bus\<close>

lemma session_step_refl: "session_step ts ts"
  unfolding session_step_def
  by (rule exI [of _ "bl_data ts"], rule exI [of _ "sysinfo_data ts"],
      rule exI [of _ "ncalls ts"], rule exI [of _ "[]"]) simp

lemma session_step_trans:
  assumes "session_step a b" and "session_step b c"
  shows "session_step a c"
proof -
  from assms(1) obtain bd sd n es where
    b: "b = a\<lparr>bl_data := bd, sysinfo_data := sd, ncalls := n, trace := trace a @ es\<rparr>"
    and es: "list_all (\<lambda>e. \<not> is_input_event e) es"
    unfolding session_step_def by blast
  from assms(2) obtain bd' sd' n' es' where
    c: "c = b\<lparr>bl_data := bd', sysinfo_data := sd', ncalls := n', trace := trace b @ es'\<rparr>"
    and es': "list_all (\<lambda>e. \<not> is_input_event e) es'"
    unfolding session_step_def by blast
  have "c = a\<lparr>bl_data := bd', sysinfo_data := sd', ncalls := n',
              trace := trace a @ (es @ es')\<rparr>"
    by (simp add: b c)
  moreover have "list_all (\<lambda>e. \<not> is_input_event e) (es @ es')"
    using es es' by simp
  ultimately show ?thesis unfolding session_step_def by blast
qed

lemma only_events_session_step:
  assumes "only_events P a b" and "\<And>e. P e \<Longrightarrow> \<not> is_input_event e"
  shows "session_step a b"
proof -
  from assms(1) obtain n es where
    b: "b = a\<lparr>ncalls := n, trace := trace a @ es\<rparr>" and es: "list_all P es"
    unfolding only_events_def by blast
  have "b = a\<lparr>bl_data := bl_data a, sysinfo_data := sysinfo_data a, ncalls := n,
              trace := trace a @ es\<rparr>"
    by (simp add: b)
  moreover have "list_all (\<lambda>e. \<not> is_input_event e) es"
    using es assms(2) by (auto simp: list_all_iff)
  ultimately show ?thesis unfolding session_step_def by blast
qed

lemma session_step_bl_data: "session_step ts (ts\<lparr>bl_data := b\<rparr>)"
  unfolding session_step_def
  by (rule exI [of _ b], rule exI [of _ "sysinfo_data ts"],
      rule exI [of _ "ncalls ts"], rule exI [of _ "[]"]) simp

lemma session_step_sysinfo_data: "session_step ts (ts\<lparr>sysinfo_data := b\<rparr>)"
  unfolding session_step_def
  by (rule exI [of _ "bl_data ts"], rule exI [of _ b],
      rule exI [of _ "ncalls ts"], rule exI [of _ "[]"]) simp

lemma session_step_emit: "\<not> is_input_event e \<Longrightarrow> session_step ts (emit e ts)"
  unfolding session_step_def emit_def
  by (rule exI [of _ "bl_data ts"], rule exI [of _ "sysinfo_data ts"],
      rule exI [of _ "ncalls ts"], rule exI [of _ "[e]"]) simp

lemma session_step_msleep: "session_step ts (msleep d ts)"
  by (simp add: msleep_def session_step_emit)

lemma session_step_power_state: "session_step a b \<Longrightarrow> power_state b = power_state a"
  unfolding session_step_def by auto

lemma session_step_platform_data: "session_step a b \<Longrightarrow> platform_data b = platform_data a"
  unfolding session_step_def by auto

lemma session_step_no_input:
  "session_step a b \<Longrightarrow> filter is_input_event (new_events a b) = []"
  unfolding session_step_def new_events_def by (auto simp: list_all_iff filter_empty_conv)

lemma bus_event_not_input: "is_bus_event e \<Longrightarrow> \<not> is_input_event e"
  by (cases e) simp_all

lemma ttsp_read_step: "session_step ts (snd (snd (ttsp_read_block_data ts c l buf)))"
  by (rule only_events_session_step [where P = is_bus_event],
      rule ttsp_read_only_events) (simp_all add: bus_event_not_input)

lemma ttsp_write_step: "session_step ts (snd (ttsp_write_block_data ts c l buf))"
  by (rule only_events_session_step [where P = is_bus_event],
      rule ttsp_write_only_events) (simp_all add: bus_event_not_input)

lemma load_bl_regs_step: "session_step ts (snd (cyttsp_load_bl_regs ts))"
proof -
  let ?ts2 = "ts\<lparr>bl_data := (replicate (unat sizeof_bootloader_data) 0)[1 := 0x10]\<rparr>"
  obtain r buf t where
    rd: "ttsp_read_block_data ?ts2 CY_REG_BASE sizeof_bootloader_data (Some (bl_data ?ts2))
           = (r, buf, t)"
    by (metis prod_cases3)
  have "session_step ?ts2 t" using ttsp_read_step [of ?ts2] rd by (metis snd_conv)
  then have "session_step ts t" using session_step_bl_data session_step_trans by blast
  moreover have "snd (cyttsp_load_bl_regs ts) = (case buf of Some b \<Rightarrow> t\<lparr>bl_data := b\<rparr> | None \<Rightarrow> t)"
    using rd by (simp add: cyttsp_load_bl_regs_def Let_def)
  ultimately show ?thesis
    by (cases buf) (auto intro: session_step_trans session_step_bl_data)
qed

lemma bl_app_valid_step: "session_step ts (snd (cyttsp_bl_app_valid ts))"
  using load_bl_regs_step [of ts]
  by (cases "cyttsp_load_bl_regs ts") (simp add: cyttsp_bl_app_valid_def)

declare exit_bl_poll.simps [simp del] operational_poll.simps [simp del]
  sysinfo_poll.simps [simp del]

lemma exit_bl_poll_step: "session_step ts (snd (snd (exit_bl_poll tries ts)))"
proof (induction tries ts rule: exit_bl_poll.induct)
  case (1 tries ts)
  obtain r t where p: "cyttsp_load_bl_regs (msleep CY_DELAY_DFLT ts) = (r, t)"
    by (cases "cyttsp_load_bl_regs (msleep CY_DELAY_DFLT ts)")
  have t: "session_step ts t"
    using load_bl_regs_step [of "msleep CY_DELAY_DFLT ts"] p
    by (auto intro: session_step_trans session_step_msleep)
  show ?case
  proof (cases "(r \<noteq> 0 \<or> GET_BOOTLOADERMODE (bl_status (bl_data t)) \<noteq> 0) \<and> tries < CY_DELAY_MAX")
    case True
    then have "session_step t (snd (snd (exit_bl_poll (tries + 1) t)))"
      using "1.IH" [OF p [symmetric]] by blast
    with t show ?thesis
      using True p by (subst exit_bl_poll.simps) (auto intro: session_step_trans)
  next
    case False
    with t show ?thesis
      using p by (subst exit_bl_poll.simps) auto
  qed
qed

lemma exit_bl_mode_step: "session_step ts (snd (cyttsp_exit_bl_mode ts))"
proof -
  let ?cmd = "fst (exit_bl_cmd (bl_keys (platform_data ts)))"
  obtain r t where
    w: "ttsp_write_block_data ts CY_REG_BASE (of_nat (length bl_command)) (Some ?cmd) = (r, t)"
    by (metis surj_pair)
  have t: "session_step ts t" using ttsp_write_step [of ts] w by (metis snd_conv)
  obtain r' n t' where p: "exit_bl_poll 0 t = (r', n, t')" by (metis prod_cases3)
  have "session_step t t'" using exit_bl_poll_step [of t 0] p by simp
  with t have "session_step ts t'" by (rule session_step_trans)
  with t show ?thesis using w p by (simp add: cyttsp_exit_bl_mode_def Let_def)
qed

lemma ttsp_write_first_try:
  assumes "rc (bus ts (ncalls ts)) = 0" and "len \<noteq> 0"
  shows "ttsp_write_block_data ts c len (Some buf) =
           (0, ts\<lparr>ncalls := Suc (ncalls ts),
                  trace := trace ts @ [BusWrite c (take (unat len) buf)]\<rparr>)"
  using assms
  by (simp add: ttsp_write_block_data_def write_loop.simps [of 0] write_loop.simps [of "Suc 0"]
      bus_write_def emit_def CY_NUM_RETRY_def Let_def)

lemma ttsp_read_first_try:
  assumes "rc (bus ts (ncalls ts)) = 0" and "len \<noteq> 0"
  shows "ttsp_read_block_data ts c len (Some buf) =
           (0, Some (store_bytes (take (unat len) (rdata (bus ts (ncalls ts)))) buf),
            ts\<lparr>ncalls := Suc (ncalls ts), trace := trace ts @ [BusRead c len]\<rparr>)"
  using assms
  by (simp add: ttsp_read_block_data_def read_loop.simps [of 0] read_loop.simps [of "Suc 0"]
      bus_read_def emit_def CY_NUM_RETRY_def Let_def)

lemma load_bl_regs_first_try:
  assumes "rc (bus ts (ncalls ts)) = 0"
  shows "cyttsp_load_bl_regs ts =
           (0, ts\<lparr>bl_data := store_bytes (take 16 (rdata (bus ts (ncalls ts))))
                               ((replicate 16 0)[1 := 0x10]),
                  ncalls := Suc (ncalls ts),
                  trace := trace ts @ [BusRead CY_REG_BASE 16]\<rparr>)"
proof -
  let ?ts2 = "ts\<lparr>bl_data := (replicate (unat sizeof_bootloader_data) 0)[1 := 0x10]\<rparr>"
  have a: "rc (bus ?ts2 (ncalls ?ts2)) = 0" using assms by simp
  have l: "sizeof_bootloader_data \<noteq> 0" by (simp add: sizeof_bootloader_data_def)
  show ?thesis
    using ttsp_read_first_try [OF a l, of CY_REG_BASE "bl_data ?ts2"]
    by (simp add: cyttsp_load_bl_regs_def Let_def sizeof_bootloader_data_def)
qed

text \<open>
  C2. After a read of the 16 status bytes that did not fail, the validity check takes the
  branch the status bytes determine: with the bootloader bit (bit 4 of \<open>bl_status\<close>) and
  the application-valid bit (bit 0) set it returns 0 and attach goes on to leave the
  bootloader; with the bootloader bit set and the valid bit clear it fails with
  \<open>-ENODEV\<close>; with the bootloader bit clear, the host mode of \<open>bl_file\<close> operational and
  no operational error bit it returns 1 and attach skips to the system information mode;
  in every other case it fails with \<open>-ENODEV\<close>.
\<close>

theorem bl_app_valid_decision:
  assumes "cyttsp_load_bl_regs ts1 = (r, ts2)" and "r \<ge> 0"
  shows "cyttsp_bl_app_valid ts1 =
           (if bit (bl_status (bl_data ts2)) 4 then
              (if bit (bl_status (bl_data ts2)) 0 then (0, ts2) else (- ENODEV, ts2))
            else if GET_HSTMODE (bl_file (bl_data ts2)) = CY_OPERATE_MODE \<and>
                    IS_OPERATIONAL_ERR (bl_status (bl_data ts2)) = 0 then (1, ts2)
            else (- ENODEV, ts2)) \<and>
         (irq_request ts \<ge> 0 \<and>
          cyttsp_soft_reset (ts\<lparr>power_state := CY_BL_STATE\<rparr>) = (r1, ts1) \<and> r1 \<noteq> 0 \<longrightarrow>
          power_on_session ts =
            (if bit (bl_status (bl_data ts2)) 4 then
               (if bit (bl_status (bl_data ts2)) 0 then
                  (case cyttsp_exit_bl_mode ts2 of
                     (r3, ts3) \<Rightarrow>
                       if r3 < 0 then (r3, ts3)
                       else no_bl_bypass (ts3\<lparr>power_state := CY_IDLE_STATE\<rparr>))
                else (- ENODEV, ts2))
             else if GET_HSTMODE (bl_file (bl_data ts2)) = CY_OPERATE_MODE \<and>
                     IS_OPERATIONAL_ERR (bl_status (bl_data ts2)) = 0 then no_bl_bypass ts2
             else (- ENODEV, ts2)))"
proof (intro conjI impI)
  show v: "cyttsp_bl_app_valid ts1 =
           (if bit (bl_status (bl_data ts2)) 4 then
              (if bit (bl_status (bl_data ts2)) 0 then (0, ts2) else (- ENODEV, ts2))
            else if GET_HSTMODE (bl_file (bl_data ts2)) = CY_OPERATE_MODE \<and>
                    IS_OPERATIONAL_ERR (bl_status (bl_data ts2)) = 0 then (1, ts2)
            else (- ENODEV, ts2))"
    using assms bootloadermode_bit [of "bl_status (bl_data ts2)"]
      valid_app_bit [of "bl_status (bl_data ts2)"]
    by (simp add: cyttsp_bl_app_valid_def)
  assume h: "irq_request ts \<ge> 0 \<and>
          cyttsp_soft_reset (ts\<lparr>power_state := CY_BL_STATE\<rparr>) = (r1, ts1) \<and> r1 \<noteq> 0"
  have p: "power_on_session ts =
             (case cyttsp_bl_app_valid ts1 of
                (r2, ts2) \<Rightarrow>
                  if r2 < 0 then (r2, ts2)
                  else if r2 > 0 then no_bl_bypass ts2
                  else (case cyttsp_exit_bl_mode ts2 of
                     (r3, ts3) \<Rightarrow>
                       if r3 < 0 then (r3, ts3)
                       else no_bl_bypass (ts3\<lparr>power_state := CY_IDLE_STATE\<rparr>)))"
    using h by (simp add: power_on_session_def Let_def)
  show "power_on_session ts =
            (if bit (bl_status (bl_data ts2)) 4 then
               (if bit (bl_status (bl_data ts2)) 0 then
                  (case cyttsp_exit_bl_mode ts2 of
                     (r3, ts3) \<Rightarrow>
                       if r3 < 0 then (r3, ts3)
                       else no_bl_bypass (ts3\<lparr>power_state := CY_IDLE_STATE\<rparr>))
                else (- ENODEV, ts2))
             else if GET_HSTMODE (bl_file (bl_data ts2)) = CY_OPERATE_MODE \<and>
                     IS_OPERATIONAL_ERR (bl_status (bl_data ts2)) = 0 then no_bl_bypass ts2
             else (- ENODEV, ts2))"
    unfolding p unfolding v by (simp add: ENODEV_def)
qed

theorem bl_app_valid_decision_witness:
  "fst (cyttsp_bl_app_valid
     ((example_session (scripted_bus [ok [], ok [0x00, 0x00]]))
        \<lparr>power_state := CY_BL_STATE, ncalls := 1,
         trace := [BusWrite 0 [1], WaitBlReady 500]\<rparr>)) = 1 \<and>
   fst (cyttsp_bl_app_valid
     ((example_session (scripted_bus [ok [], ok [0x00, 0x10]]))
        \<lparr>power_state := CY_BL_STATE, ncalls := 1,
         trace := [BusWrite 0 [1], WaitBlReady 500]\<rparr>)) = - 19 \<and>
   fst (power_on_session (example_session (scripted_bus [ok [], ok [0x00, 0x10]]))) = - 19"
proof -
  let ?a = "example_session (scripted_bus [ok [], ok [0x00, 0x00]])"
  let ?a1 = "?a\<lparr>power_state := CY_BL_STATE, ncalls := 1,
                 trace := [BusWrite 0 [1], WaitBlReady 500]\<rparr>"
  let ?b = "example_session (scripted_bus [ok [], ok [0x00, 0x10]])"
  let ?b1 = "?b\<lparr>power_state := CY_BL_STATE, ncalls := 1,
                 trace := [BusWrite 0 [1], WaitBlReady 500]\<rparr>"
  have sb: "cyttsp_soft_reset (?b\<lparr>power_state := CY_BL_STATE\<rparr>) = (1, ?b1)"
    by (simp add: cyttsp_soft_reset_def ttsp_write_first_try emit_def
        example_session_def scripted_bus_def ok_def
        CY_REG_BASE_def CY_SOFT_RESET_MODE_def CY_DELAY_DFLT_def CY_DELAY_MAX_def)
  have la: "rc (bus ?a1 (ncalls ?a1)) = 0" and lb: "rc (bus ?b1 (ncalls ?b1)) = 0"
    by (simp_all add: example_session_def scripted_bus_def ok_def)
  have irq: "irq_request ?b \<ge> 0"
    by (simp add: example_session_def)
  have z: "(0::int) \<le> 0" "(1::int) \<noteq> 0" by simp_all
  have ra: "fst (cyttsp_bl_app_valid ?a1) = 1"
    using bl_app_valid_decision [OF load_bl_regs_first_try [OF la] z(1)]
    by (simp add: bl_status_def bl_file_def GET_HSTMODE_def IS_OPERATIONAL_ERR_def
        CY_OPERATE_MODE_def store_bytes_def example_session_def scripted_bus_def ok_def)
  obtain b2 where ld: "cyttsp_load_bl_regs ?b1 = (0, b2)"
    and st: "bl_status (bl_data b2) = 0x10"
    using load_bl_regs_first_try [OF lb]
    by (simp add: bl_status_def store_bytes_def example_session_def scripted_bus_def ok_def)
  note b = bl_app_valid_decision [OF ld z(1), of ?b 1]
  have rb: "fst (cyttsp_bl_app_valid ?b1) = - 19"
    using b by (simp add: st ENODEV_def)
  have rp: "fst (power_on_session ?b) = - 19"
    using b irq sb z(2) by (simp add: st ENODEV_def)
  show ?thesis using ra rb rp by simp
qed

lemma exit_bl_poll_budget:
  "(if \<exists>n. tries + n < CY_DELAY_MAX \<and> bl_poll_ok (bl_poll (after_polls n ts))
    then fst (exit_bl_poll tries ts) = 0 \<and> fst (snd (exit_bl_poll tries ts)) < CY_DELAY_MAX
    else fst (snd (exit_bl_poll tries ts)) \<ge> CY_DELAY_MAX)"
proof (induction tries ts rule: exit_bl_poll.induct)
  case (1 tries ts)
  obtain r t where p: "cyttsp_load_bl_regs (msleep CY_DELAY_DFLT ts) = (r, t)"
    by (cases "cyttsp_load_bl_regs (msleep CY_DELAY_DFLT ts)")
  then have bp: "bl_poll ts = (r, t)" by (simp add: bl_poll_def)
  let ?bad = "r \<noteq> 0 \<or> GET_BOOTLOADERMODE (bl_status (bl_data t)) \<noteq> 0"
  have ok0: "bl_poll_ok (bl_poll (after_polls 0 ts)) \<longleftrightarrow> \<not> ?bad"
    by (simp add: bp bl_poll_ok_def)
  have shift: "\<And>n. bl_poll_ok (bl_poll (after_polls (Suc n) ts)) =
                     bl_poll_ok (bl_poll (after_polls n t))"
    by (simp add: bp)
  show ?case
  proof (cases ?bad)
    case False
    then have res: "exit_bl_poll tries ts = (r, tries, t)"
      using p by (subst exit_bl_poll.simps) simp
    show ?thesis
    proof (cases "tries < CY_DELAY_MAX")
      case True
      then have "\<exists>n. tries + n < CY_DELAY_MAX \<and> bl_poll_ok (bl_poll (after_polls n ts))"
        using ok0 False by (intro exI [of _ 0]) simp
      then show ?thesis using res False True by simp
    next
      case f: False
      then have "\<not> (\<exists>n. tries + n < CY_DELAY_MAX \<and> bl_poll_ok (bl_poll (after_polls n ts)))"
        by auto
      then show ?thesis using res f by simp
    qed
  next
    case bad: True
    show ?thesis
    proof (cases "tries < CY_DELAY_MAX")
      case True
      have res: "exit_bl_poll tries ts = exit_bl_poll (tries + 1) t"
        using p bad True by (subst exit_bl_poll.simps) auto
      have ex: "(\<exists>n. tries + n < CY_DELAY_MAX \<and> bl_poll_ok (bl_poll (after_polls n ts))) \<longleftrightarrow>
                (\<exists>n. tries + 1 + n < CY_DELAY_MAX \<and> bl_poll_ok (bl_poll (after_polls n t)))"
      proof
        assume "\<exists>n. tries + n < CY_DELAY_MAX \<and> bl_poll_ok (bl_poll (after_polls n ts))"
        then obtain n where n: "tries + n < CY_DELAY_MAX"
          "bl_poll_ok (bl_poll (after_polls n ts))" by blast
        with ok0 bad obtain m where "n = Suc m" by (cases n) auto
        with n shift show "\<exists>n. tries + 1 + n < CY_DELAY_MAX \<and> bl_poll_ok (bl_poll (after_polls n t))"
          by (intro exI [of _ m]) simp
      next
        assume "\<exists>n. tries + 1 + n < CY_DELAY_MAX \<and> bl_poll_ok (bl_poll (after_polls n t))"
        then obtain n where "tries + 1 + n < CY_DELAY_MAX"
          "bl_poll_ok (bl_poll (after_polls n t))" by blast
        with shift show "\<exists>n. tries + n < CY_DELAY_MAX \<and> bl_poll_ok (bl_poll (after_polls n ts))"
          by (intro exI [of _ "Suc n"]) simp
      qed
      show ?thesis
        unfolding res ex using "1.IH" [OF p [symmetric] bad True] .
    next
      case f: False
      then have res: "exit_bl_poll tries ts = (r, tries + 1, t)"
        using p bad by (subst exit_bl_poll.simps) auto
      have "\<not> (\<exists>n. tries + n < CY_DELAY_MAX \<and> bl_poll_ok (bl_poll (after_polls n ts)))"
        using f by auto
      then show ?thesis using res f by simp
    qed
  qed
qed

text \<open>
  C7. Once the exit-bootloader command is written (a result that is not negative),
  \<^verbatim>\<open>cyttsp_exit_bl_mode\<close> returns 0 exactly when one of the first 25 polls (each a delay
  of \<open>CY_DELAY_DFLT\<close> and a re-read of the bootloader registers) reads the registers with
  result 0 and finds the bootloader bit clear; otherwise it returns \<open>-ENODEV\<close>.
\<close>

theorem exit_bl_mode_poll_budget:
  assumes "ttsp_write_block_data ts CY_REG_BASE (of_nat (length bl_command))
             (Some (fst (exit_bl_cmd (bl_keys (platform_data ts))))) = (r, ts1)"
    and "r \<ge> 0"
  shows "fst (cyttsp_exit_bl_mode ts) =
           (if \<exists>n<25. bl_poll_ok (bl_poll (after_polls n ts1)) then 0 else - ENODEV)"
proof -
  obtain r' n t where p: "exit_bl_poll 0 ts1 = (r', n, t)" by (metis prod_cases3)
  have m: "CY_DELAY_MAX = 25" by (simp add: CY_DELAY_MAX_def CY_DELAY_DFLT_def)
  have res: "fst (cyttsp_exit_bl_mode ts) = (if n \<ge> CY_DELAY_MAX then - ENODEV else r')"
    using assms p by (simp add: cyttsp_exit_bl_mode_def Let_def)
  show ?thesis
    using exit_bl_poll_budget [of 0 ts1] p unfolding res m
    by (auto split: if_splits)
qed


theorem exit_bl_mode_poll_budget_witness:
  "fst (cyttsp_exit_bl_mode
     (example_session (scripted_bus [ok [], ok [0x00, 0x11], ok [0x00, 0x00]]))) = 0"
proof -
  let ?ts = "example_session (scripted_bus [ok [], ok [0x00, 0x11], ok [0x00, 0x00]])"
  let ?ts1 = "?ts\<lparr>ncalls := Suc 0, trace := [BusWrite CY_REG_BASE bl_command]\<rparr>"
  have w: "ttsp_write_block_data ?ts CY_REG_BASE (of_nat (length bl_command))
             (Some (fst (exit_bl_cmd (bl_keys (platform_data ?ts))))) = (0, ?ts1)"
    by (simp add: ttsp_write_first_try exit_bl_cmd_def example_session_def
        example_platform_data_def scripted_bus_def ok_def bl_command_def)
  have "bl_poll_ok (bl_poll (after_polls (Suc 0) ?ts1))"
    by (simp add: bl_poll_def bl_poll_ok_def load_bl_regs_first_try msleep_def emit_def
        example_session_def scripted_bus_def ok_def GET_BOOTLOADERMODE_def bl_status_def
        store_bytes_def)
  then have ex: "\<exists>n<25. bl_poll_ok (bl_poll (after_polls n ?ts1))"
    by (intro exI [of _ "Suc 0"]) simp
  have z: "(0::int) \<le> 0" by simp
  show ?thesis
    using exit_bl_mode_poll_budget [OF w z] ex by simp
qed

section \<open>Touch frames\<close>

declare touch_loop.simps [simp del] empty_loop.simps [simp del]

lemma only_events_unchanged:
  "only_events P a b \<Longrightarrow> b = a\<lparr>ncalls := ncalls b, trace := trace b\<rparr>"
  unfolding only_events_def by auto

lemma only_events_new:
  "only_events P a b \<Longrightarrow> trace b = trace a @ new_events a b \<and> list_all P (new_events a b)"
  unfolding only_events_def new_events_def by auto

lemma writes_of_read_events: "list_all is_read_event es \<Longrightarrow> writes_of es = []"
  by (induction es rule: writes_of.induct) auto

lemma input_of_read_events: "list_all is_read_event es \<Longrightarrow> filter is_input_event es = []"
  by (induction es rule: writes_of.induct) auto

lemma retry_trace_4:
  "retry_trace e 4 =
     [e, Msleep CY_DELAY_DFLT, e, Msleep CY_DELAY_DFLT,
      e, Msleep CY_DELAY_DFLT, e, Msleep CY_DELAY_DFLT]"
proof -
  have "(4::nat) = Suc (Suc (Suc (Suc 0)))" by simp
  then show ?thesis unfolding retry_trace_def by (simp only: replicate.simps concat.simps append.simps)
qed

lemma ttsp_write_all_fail:
  assumes "\<forall>i<4. rc (bus ts (ncalls ts + i)) < 0" and "len \<noteq> 0"
  shows "ttsp_write_block_data ts c len (Some buf) =
           (rc (bus ts (ncalls ts + 3)),
            ts\<lparr>ncalls := ncalls ts + 4,
               trace := trace ts @ retry_trace (BusWrite c (take (unat len) buf)) 4\<rparr>)"
proof -
  have f: "\<forall>i<CY_NUM_RETRY. rc (bus ts (ncalls ts + i)) < 0"
    using assms(1) by (simp add: CY_NUM_RETRY_def)
  have n: "0 + CY_NUM_RETRY = CY_NUM_RETRY" and m: "(- 1 :: int) < 0" by simp_all
  show ?thesis
    using write_loop_fails [OF f n m, of c len buf] assms(2)
    by (simp add: ttsp_write_block_data_def CY_NUM_RETRY_def add.commute)
qed

lemma ttsp_read_all_fail:
  assumes "\<forall>i<4. rc (bus ts (ncalls ts + i)) < 0" and "len \<noteq> 0"
  shows "fst (ttsp_read_block_data ts c len (Some buf)) = rc (bus ts (ncalls ts + 3)) \<and>
         snd (snd (ttsp_read_block_data ts c len (Some buf))) =
           ts\<lparr>ncalls := ncalls ts + 4, trace := trace ts @ retry_trace (BusRead c len) 4\<rparr>"
proof -
  have f: "\<forall>i<CY_NUM_RETRY. rc (bus ts (ncalls ts + i)) < 0"
    using assms(1) by (simp add: CY_NUM_RETRY_def)
  have n: "0 + CY_NUM_RETRY = CY_NUM_RETRY" and m: "(- 1 :: int) < 0" by simp_all
  show ?thesis
    using read_loop_fails [OF f n m, of c len buf] assms(2)
    by (cases "read_loop 0 (- 1) ts c len buf")
      (simp add: ttsp_read_block_data_def CY_NUM_RETRY_def add.commute)
qed

text \<open>
  C9. When the read of the touch frame fails (a result that is not 0, after the retries
  of the transport), \<^verbatim>\<open>cyttsp_handle_tchdata\<close> returns 0; the session is as before but
  for the bus calls counted and the events added, which are reads and delays only: no
  write (so no handshake), no report to the input core; and the interrupt handler does
  nothing more, so no exit from the bootloader is tried.
\<close>

theorem failed_frame_read_is_dropped:
  assumes "fst (ttsp_read_block_data ts CY_REG_BASE sizeof_xydata (Some (local_xydata ts))) \<noteq> 0"
  shows "fst (cyttsp_handle_tchdata ts) = 0 \<and>
         snd (cyttsp_handle_tchdata ts) =
           ts\<lparr>ncalls := ncalls (snd (cyttsp_handle_tchdata ts)),
              trace := trace (snd (cyttsp_handle_tchdata ts))\<rparr> \<and>
         trace (snd (cyttsp_handle_tchdata ts)) =
           trace ts @ new_events ts (snd (cyttsp_handle_tchdata ts)) \<and>
         list_all is_read_event (new_events ts (snd (cyttsp_handle_tchdata ts))) \<and>
         writes_of (new_events ts (snd (cyttsp_handle_tchdata ts))) = [] \<and>
         filter is_input_event (new_events ts (snd (cyttsp_handle_tchdata ts))) = [] \<and>
         cyttsp_irq ts =
           (if power_state ts = CY_BL_STATE then emit CompleteBlReady ts
            else snd (cyttsp_handle_tchdata ts))"
proof -
  obtain r buf ts1 where
    rd: "ttsp_read_block_data ts CY_REG_BASE sizeof_xydata (Some (local_xydata ts)) = (r, buf, ts1)"
    by (metis prod_cases3)
  with assms have r: "r \<noteq> 0" by simp
  have h: "cyttsp_handle_tchdata ts = (0, ts1)"
    using rd r by (simp add: cyttsp_handle_tchdata_def)
  have oe: "only_events is_read_event ts ts1"
    using ttsp_read_only_events [of is_read_event CY_REG_BASE sizeof_xydata ts
        "Some (local_xydata ts)"] rd by simp
  note n = only_events_new [OF oe]
  show ?thesis
    unfolding h using only_events_unchanged [OF oe] n
      writes_of_read_events [OF conjunct2 [OF n]] input_of_read_events [OF conjunct2 [OF n]]
    by (simp add: cyttsp_irq_def h)
qed

theorem failed_frame_read_is_dropped_witness:
  "cyttsp_handle_tchdata (example_session (scripted_bus [])) =
     (0, (example_session (scripted_bus []))
           \<lparr>ncalls := 4,
            trace := [BusRead 0 32, Msleep 20, BusRead 0 32, Msleep 20,
                      BusRead 0 32, Msleep 20, BusRead 0 32, Msleep 20]\<rparr>)"
proof -
  let ?ts = "example_session (scripted_bus [])"
  let ?rd = "ttsp_read_block_data ?ts CY_REG_BASE sizeof_xydata (Some (local_xydata ?ts))"
  have f: "\<forall>i<4. rc (bus ?ts (ncalls ?ts + i)) < 0"
    by (simp add: example_session_def scripted_bus_def EIO_def)
  have l: "sizeof_xydata \<noteq> 0" by (simp add: sizeof_xydata_def)
  note rl = ttsp_read_all_fail [OF f l, of CY_REG_BASE "local_xydata ?ts"]
  have nz: "fst ?rd \<noteq> 0"
    using rl by (simp add: example_session_def scripted_bus_def EIO_def)
  have t: "snd (snd ?rd) =
             ?ts\<lparr>ncalls := 4,
            trace := [BusRead 0 32, Msleep 20, BusRead 0 32, Msleep 20,
                      BusRead 0 32, Msleep 20, BusRead 0 32, Msleep 20]\<rparr>"
    using rl
    by (simp add: retry_trace_4 example_session_def sizeof_xydata_def CY_REG_BASE_def
        CY_DELAY_DFLT_def)
  have h: "snd (cyttsp_handle_tchdata ?ts) = snd (snd ?rd)"
    using nz by (cases ?rd) (simp add: cyttsp_handle_tchdata_def)
  from failed_frame_read_is_dropped [OF nz] have "fst (cyttsp_handle_tchdata ?ts) = 0"
    by blast
  with h t show ?thesis
    by (cases "cyttsp_handle_tchdata ?ts") simp
qed

lemma hndshk_step: "session_step ts (snd (cyttsp_hndshk ts h))"
  by (simp add: cyttsp_hndshk_def Let_def ttsp_write_step)

text \<open>The session at the point where \<^verbatim>\<open>cyttsp_handle_tchdata\<close> looks at the frame.\<close>

lemma handle_tchdata_frame:
  assumes rd: "ttsp_read_block_data ts CY_REG_BASE sizeof_xydata (Some (local_xydata ts)) =
                 (0, Some xy, ts1)"
    and hs: "use_hndshk (platform_data ts) \<longrightarrow> fst (cyttsp_hndshk ts1 (xy_hst_mode xy)) = 0"
    and ts2: "ts2 = (if use_hndshk (platform_data ts) then snd (cyttsp_hndshk ts1 (xy_hst_mode xy))
                     else ts1)"
  shows "cyttsp_handle_tchdata ts =
           (if power_state ts = CY_IDLE_STATE then (0, ts2)
            else if GET_BOOTLOADERMODE (xy_tt_mode xy) \<noteq> 0 then (- 1, ts2)
            else
              (let num_cur_tch =
                     (if IS_LARGE_AREA (xy_tt_stat xy) = 1 then 0
                      else if unat (GET_NUM_TOUCHES (xy_tt_stat xy)) > CY_MAX_FINGER then 0
                      else if IS_BAD_PKT (xy_tt_mode xy) \<noteq> 0 then 0
                      else GET_NUM_TOUCHES (xy_tt_stat xy))
               in case touch_loop 0 (unat num_cur_tch) xy (cyttsp_extract_track_ids xy) 0 ts2 of
                    (used, ts3) \<Rightarrow> (0, emit InputSync (empty_loop 0 used ts3))))"
    and "session_step ts ts2"
proof -
  have s1: "session_step ts ts1" using ttsp_read_step [of ts] rd by (metis snd_conv)
  then have pd: "platform_data ts1 = platform_data ts"
    by (rule session_step_platform_data)
  have s12: "session_step ts1 ts2"
    unfolding ts2 by (simp add: hndshk_step session_step_refl)
  with s1 show s2: "session_step ts ts2" by (rule session_step_trans)
  have ps: "power_state ts2 = power_state ts" using s2 by (rule session_step_power_state)
  show "cyttsp_handle_tchdata ts =
           (if power_state ts = CY_IDLE_STATE then (0, ts2)
            else if GET_BOOTLOADERMODE (xy_tt_mode xy) \<noteq> 0 then (- 1, ts2)
            else
              (let num_cur_tch =
                     (if IS_LARGE_AREA (xy_tt_stat xy) = 1 then 0
                      else if unat (GET_NUM_TOUCHES (xy_tt_stat xy)) > CY_MAX_FINGER then 0
                      else if IS_BAD_PKT (xy_tt_mode xy) \<noteq> 0 then 0
                      else GET_NUM_TOUCHES (xy_tt_stat xy))
               in case touch_loop 0 (unat num_cur_tch) xy (cyttsp_extract_track_ids xy) 0 ts2 of
                    (used, ts3) \<Rightarrow> (0, emit InputSync (empty_loop 0 used ts3))))"
  proof (cases "use_hndshk (platform_data ts)")
    case True
    with hs have h0: "fst (cyttsp_hndshk ts1 (xy_hst_mode xy)) = 0" by simp
    then have h: "cyttsp_hndshk ts1 (xy_hst_mode xy) = (0, ts2)"
      using True ts2 by (metis prod.collapse)
    show ?thesis
      unfolding cyttsp_handle_tchdata_def rd using True pd h ps by (simp add: Let_def)
  next
    case False
    then have "ts2 = ts1" using ts2 by simp
    then show ?thesis
      unfolding cyttsp_handle_tchdata_def rd using False pd ps by (simp add: Let_def)
  qed
qed

lemma empty_loop_520:
  "empty_loop 0 520 ts =
     ts\<lparr>trace := trace ts @
        map ReportSlotEmpty [0, 1, 2, 4, 5, 6, 7, 8, 10, 11, 12, 13, 14, 15]\<rparr>"
  by (simp add: empty_loop.simps CY_MAX_ID_def cyttsp_report_slot_empty_def emit_def)

text \<open>
  C3. A frame read without error (and acknowledged, when the handshake is configured) in a
  session that is not idle, with no bootloader, large-area or bad-packet bit, a touch count
  of 2, track ids 3 and 9 packed in \<open>touch12_id\<close>, and the first two contact records
  holding (100, 200, 50) and (400, 10, 5) big-endian: the handler returns 0 and reports
  exactly slot 3 at (100, 200, 50), slot 9 at (400, 10, 5), the 14 other slots empty, in
  slot order, and one sync.
\<close>

theorem two_touch_frame_decodes:
  assumes "ttsp_read_block_data ts CY_REG_BASE sizeof_xydata (Some (local_xydata ts)) =
             (0, Some xy, ts1)"
    and "use_hndshk (platform_data ts) \<longrightarrow> fst (cyttsp_hndshk ts1 (xy_hst_mode xy)) = 0"
    and "ts2 = (if use_hndshk (platform_data ts) then snd (cyttsp_hndshk ts1 (xy_hst_mode xy))
                else ts1)"
    and "power_state ts \<noteq> CY_IDLE_STATE"
    and "GET_BOOTLOADERMODE (xy_tt_mode xy) = 0"
    and "IS_LARGE_AREA (xy_tt_stat xy) = 0"
    and "IS_BAD_PKT (xy_tt_mode xy) = 0"
    and "GET_NUM_TOUCHES (xy_tt_stat xy) = 2"
    and "xy_touch12_id xy = 0x39"
    and "tch_x (xy_tch1 xy) = 100" and "tch_y (xy_tch1 xy) = 200" and "tch_z (xy_tch1 xy) = 50"
    and "tch_x (xy_tch2 xy) = 400" and "tch_y (xy_tch2 xy) = 10" and "tch_z (xy_tch2 xy) = 5"
  shows "cyttsp_handle_tchdata ts =
           (0, ts2\<lparr>trace := trace ts2 @
                    [ReportSlot 3 100 200 50, ReportSlot 9 400 10 5] @
                    map ReportSlotEmpty [0, 1, 2, 4, 5, 6, 7, 8, 10, 11, 12, 13, 14, 15] @
                    [InputSync]\<rparr>) \<and>
         filter is_input_event (new_events ts ts2) = []"
proof -
  note fr = handle_tchdata_frame [OF assms(1,2,3)]
  have ids: "cyttsp_extract_track_ids xy ! 0 = 3" "cyttsp_extract_track_ids xy ! 1 = 9"
    using assms(9) by (simp_all add: cyttsp_extract_track_ids_def drop_bit_eq_div)
  have tl: "touch_loop 0 2 xy (cyttsp_extract_track_ids xy) 0 ts2 =
              (520, ts2\<lparr>trace := trace ts2 @ [ReportSlot 3 100 200 50, ReportSlot 9 400 10 5]\<rparr>)"
    using ids assms(10-15)
    by (simp add: touch_loop.simps cyttsp_get_tch_def cyttsp_report_slot_def emit_def)
  show ?thesis
    using fr(1) assms(4-8) tl session_step_no_input [OF fr(2)]
    by (simp add: CY_MAX_FINGER_def empty_loop_520 emit_def)
qed


lemma frame_fills_buffer:
  "length d = 32 \<Longrightarrow> store_bytes (take (unat sizeof_xydata) d) (local_xydata ts) = d"
  by (simp add: store_bytes_def local_xydata_def sizeof_xydata_def)

theorem two_touch_frame_decodes_witness:
  "cyttsp_handle_tchdata (example_session (scripted_bus [ok two_touch_frame])) =
     (0, (example_session (scripted_bus [ok two_touch_frame]))
           \<lparr>ncalls := 1,
            trace := [BusRead 0 32, ReportSlot 3 100 200 50, ReportSlot 9 400 10 5,
                      ReportSlotEmpty 0, ReportSlotEmpty 1, ReportSlotEmpty 2,
                      ReportSlotEmpty 4, ReportSlotEmpty 5, ReportSlotEmpty 6,
                      ReportSlotEmpty 7, ReportSlotEmpty 8, ReportSlotEmpty 10,
                      ReportSlotEmpty 11, ReportSlotEmpty 12, ReportSlotEmpty 13,
                      ReportSlotEmpty 14, ReportSlotEmpty 15, InputSync]\<rparr>)"
proof -
  let ?ts = "example_session (scripted_bus [ok two_touch_frame])"
  let ?ts1 = "?ts\<lparr>ncalls := Suc (ncalls ?ts), trace := trace ?ts @ [BusRead CY_REG_BASE sizeof_xydata]\<rparr>"
  have b: "rc (bus ?ts (ncalls ?ts)) = 0" and d: "rdata (bus ?ts (ncalls ?ts)) = two_touch_frame"
    by (simp_all add: example_session_def scripted_bus_def ok_def)
  have l: "sizeof_xydata \<noteq> 0" by (simp add: sizeof_xydata_def)
  have len: "length two_touch_frame = 32" by (simp add: two_touch_frame_def)
  have rd: "ttsp_read_block_data ?ts CY_REG_BASE sizeof_xydata (Some (local_xydata ?ts)) =
              (0, Some two_touch_frame, ?ts1)"
    using ttsp_read_first_try [OF b l, of CY_REG_BASE "local_xydata ?ts"]
    unfolding d frame_fills_buffer [OF len] .
  have nh: "\<not> use_hndshk (platform_data ?ts)"
    by (simp add: example_session_def example_platform_data_def)
  then have hs: "use_hndshk (platform_data ?ts) \<longrightarrow>
                 fst (cyttsp_hndshk ?ts1 (xy_hst_mode two_touch_frame)) = 0"
    by simp
  have t2: "?ts1 = (if use_hndshk (platform_data ?ts)
                    then snd (cyttsp_hndshk ?ts1 (xy_hst_mode two_touch_frame)) else ?ts1)"
    using nh by simp
  have ps: "power_state ?ts \<noteq> CY_IDLE_STATE" by (simp add: example_session_def)
  have f: "GET_BOOTLOADERMODE (xy_tt_mode two_touch_frame) = 0"
    "IS_LARGE_AREA (xy_tt_stat two_touch_frame) = 0"
    "IS_BAD_PKT (xy_tt_mode two_touch_frame) = 0"
    "GET_NUM_TOUCHES (xy_tt_stat two_touch_frame) = 2"
    "xy_touch12_id two_touch_frame = 0x39"
    by (simp_all add: two_touch_frame_def xy_tt_mode_def xy_tt_stat_def xy_touch12_id_def
        GET_BOOTLOADERMODE_def IS_LARGE_AREA_def IS_BAD_PKT_def GET_NUM_TOUCHES_def)
  have c: "tch_x (xy_tch1 two_touch_frame) = 100" "tch_y (xy_tch1 two_touch_frame) = 200"
    "tch_z (xy_tch1 two_touch_frame) = 50" "tch_x (xy_tch2 two_touch_frame) = 400"
    "tch_y (xy_tch2 two_touch_frame) = 10" "tch_z (xy_tch2 two_touch_frame) = 5"
    by (simp_all add: two_touch_frame_def xy_tch1_def xy_tch2_def tch_x_def tch_y_def
        tch_z_def be16_to_cpu_def)
  show ?thesis
    using two_touch_frame_decodes [OF rd hs t2 ps f c]
    by (simp add: example_session_def CY_REG_BASE_def sizeof_xydata_def)
qed

lemma new_events_trans:
  "session_step a b \<Longrightarrow> session_step b c \<Longrightarrow> new_events a c = new_events a b @ new_events b c"
  unfolding session_step_def new_events_def by auto

text \<open>
  C4 (as amended). A frame read without error, and acknowledged when the handshake is
  configured, that has the bootloader bit set in its mode byte while the power state is
  active: \<^verbatim>\<open>cyttsp_handle_tchdata\<close> returns -1 and the interrupt handler runs
  \<^verbatim>\<open>cyttsp_exit_bl_mode\<close> and nothing else; the power state becomes active when that returns
  0 and idle otherwise; nothing is reported to the input core.
\<close>

theorem bootloader_frame_recovery:
  assumes "ttsp_read_block_data ts CY_REG_BASE sizeof_xydata (Some (local_xydata ts)) =
             (0, Some xy, ts1)"
    and "use_hndshk (platform_data ts) \<longrightarrow> fst (cyttsp_hndshk ts1 (xy_hst_mode xy)) = 0"
    and "ts2 = (if use_hndshk (platform_data ts) then snd (cyttsp_hndshk ts1 (xy_hst_mode xy))
                else ts1)"
    and "power_state ts = CY_ACTIVE_STATE"
    and "GET_BOOTLOADERMODE (xy_tt_mode xy) \<noteq> 0"
  shows "cyttsp_handle_tchdata ts = (- 1, ts2) \<and>
         cyttsp_irq ts =
           (snd (cyttsp_exit_bl_mode ts2))
             \<lparr>power_state :=
                (if fst (cyttsp_exit_bl_mode ts2) = 0 then CY_ACTIVE_STATE else CY_IDLE_STATE)\<rparr> \<and>
         filter is_input_event (new_events ts (cyttsp_irq ts)) = []"
proof -
  note fr = handle_tchdata_frame [OF assms(1,2,3)]
  have h: "cyttsp_handle_tchdata ts = (- 1, ts2)"
    using fr(1) assms(4,5) by simp
  obtain r t where e: "cyttsp_exit_bl_mode ts2 = (r, t)" by (metis surj_pair)
  have irq: "cyttsp_irq ts =
           t\<lparr>power_state := (if r = 0 then CY_ACTIVE_STATE else CY_IDLE_STATE)\<rparr>"
    using assms(4) h e by (simp add: cyttsp_irq_def)
  have st: "session_step ts2 t" using exit_bl_mode_step [of ts2] e by simp
  have "filter is_input_event (new_events ts t) = []"
    using new_events_trans [OF fr(2) st] session_step_no_input [OF fr(2)]
      session_step_no_input [OF st]
    by simp
  then show ?thesis
    using h irq e by simp
qed

theorem bootloader_frame_recovery_witness:
  "power_state (cyttsp_irq
      (example_session (scripted_bus [ok bootloader_frame, ok [], ok [0x00, 0x00]]))) =
     CY_ACTIVE_STATE \<and>
   power_state (cyttsp_irq
      (example_session (scripted_bus [ok bootloader_frame]))) = CY_IDLE_STATE"
proof -
  let ?a = "example_session (scripted_bus [ok bootloader_frame, ok [], ok [0x00, 0x00]])"
  let ?a1 = "?a\<lparr>ncalls := Suc (ncalls ?a), trace := trace ?a @ [BusRead CY_REG_BASE sizeof_xydata]\<rparr>"
  let ?b = "example_session (scripted_bus [ok bootloader_frame])"
  let ?b1 = "?b\<lparr>ncalls := Suc (ncalls ?b), trace := trace ?b @ [BusRead CY_REG_BASE sizeof_xydata]\<rparr>"
  have l: "sizeof_xydata \<noteq> 0" by (simp add: sizeof_xydata_def)
  have len: "length bootloader_frame = 32" by (simp add: bootloader_frame_def)
  have ba: "rc (bus ?a (ncalls ?a)) = 0" and da: "rdata (bus ?a (ncalls ?a)) = bootloader_frame"
    and bb: "rc (bus ?b (ncalls ?b)) = 0" and db: "rdata (bus ?b (ncalls ?b)) = bootloader_frame"
    by (simp_all add: example_session_def scripted_bus_def ok_def)
  have rda: "ttsp_read_block_data ?a CY_REG_BASE sizeof_xydata (Some (local_xydata ?a)) =
              (0, Some bootloader_frame, ?a1)"
    using ttsp_read_first_try [OF ba l, of CY_REG_BASE "local_xydata ?a"]
    unfolding da frame_fills_buffer [OF len] .
  have rdb: "ttsp_read_block_data ?b CY_REG_BASE sizeof_xydata (Some (local_xydata ?b)) =
              (0, Some bootloader_frame, ?b1)"
    using ttsp_read_first_try [OF bb l, of CY_REG_BASE "local_xydata ?b"]
    unfolding db frame_fills_buffer [OF len] .
  have nh: "\<not> use_hndshk (platform_data ?a)" "\<not> use_hndshk (platform_data ?b)"
    by (simp_all add: example_session_def example_platform_data_def)
  have hsa: "use_hndshk (platform_data ?a) \<longrightarrow>
               fst (cyttsp_hndshk ?a1 (xy_hst_mode bootloader_frame)) = 0"
    and hsb: "use_hndshk (platform_data ?b) \<longrightarrow>
               fst (cyttsp_hndshk ?b1 (xy_hst_mode bootloader_frame)) = 0"
    using nh by simp_all
  have t2a: "?a1 = (if use_hndshk (platform_data ?a)
                    then snd (cyttsp_hndshk ?a1 (xy_hst_mode bootloader_frame)) else ?a1)"
    and t2b: "?b1 = (if use_hndshk (platform_data ?b)
                    then snd (cyttsp_hndshk ?b1 (xy_hst_mode bootloader_frame)) else ?b1)"
    using nh by simp_all
  have ps: "power_state ?a = CY_ACTIVE_STATE" "power_state ?b = CY_ACTIVE_STATE"
    by (simp_all add: example_session_def)
  have f: "GET_BOOTLOADERMODE (xy_tt_mode bootloader_frame) \<noteq> 0"
    by (simp add: bootloader_frame_def xy_tt_mode_def GET_BOOTLOADERMODE_def)
  have ea: "fst (cyttsp_exit_bl_mode ?a1) = 0"
    by (simp add: cyttsp_exit_bl_mode_def ttsp_write_first_try exit_bl_cmd_def
        exit_bl_poll.simps load_bl_regs_first_try msleep_def emit_def
        example_session_def example_platform_data_def scripted_bus_def ok_def bl_command_def
        GET_BOOTLOADERMODE_def bl_status_def store_bytes_def CY_DELAY_MAX_def CY_DELAY_DFLT_def)
  have eb: "fst (cyttsp_exit_bl_mode ?b1) \<noteq> 0"
    by (simp add: cyttsp_exit_bl_mode_def ttsp_write_all_fail exit_bl_cmd_def
        example_session_def example_platform_data_def scripted_bus_def ok_def bl_command_def
        EIO_def)
  show ?thesis
    using bootloader_frame_recovery [OF rda hsa t2a ps(1) f]
      bootloader_frame_recovery [OF rdb hsb t2b ps(2) f] ea eb
    by simp
qed

text \<open>
  C4 as stated fails where the handshake is configured and its write fails: the frame with
  the bootloader bit is read in the active state, the four attempts to acknowledge it
  fail, and the handler stops there: it writes no exit-bootloader command and the power
  state stays active although the bus is dead.
\<close>

theorem bootloader_frame_unacknowledged:
  "power_state (handshake_session (scripted_bus [ok bootloader_frame])) = CY_ACTIVE_STATE \<and>
   fst (ttsp_read_block_data (handshake_session (scripted_bus [ok bootloader_frame]))
          CY_REG_BASE sizeof_xydata
          (Some (local_xydata (handshake_session (scripted_bus [ok bootloader_frame]))))) = 0 \<and>
   fst (snd (ttsp_read_block_data (handshake_session (scripted_bus [ok bootloader_frame]))
          CY_REG_BASE sizeof_xydata
          (Some (local_xydata (handshake_session (scripted_bus [ok bootloader_frame]))))))
     = Some bootloader_frame \<and>
   GET_BOOTLOADERMODE (xy_tt_mode bootloader_frame) \<noteq> 0 \<and>
   cyttsp_irq (handshake_session (scripted_bus [ok bootloader_frame])) =
     (handshake_session (scripted_bus [ok bootloader_frame]))
       \<lparr>ncalls := 5,
        trace := [BusRead 0 32, BusWrite 0 [0x80], Msleep 20, BusWrite 0 [0x80], Msleep 20,
                  BusWrite 0 [0x80], Msleep 20, BusWrite 0 [0x80], Msleep 20]\<rparr>"
proof -
  let ?c = "handshake_session (scripted_bus [ok bootloader_frame])"
  let ?c1 = "?c\<lparr>ncalls := Suc (ncalls ?c), trace := trace ?c @ [BusRead CY_REG_BASE sizeof_xydata]\<rparr>"
  have l: "sizeof_xydata \<noteq> 0" by (simp add: sizeof_xydata_def)
  have len: "length bootloader_frame = 32" by (simp add: bootloader_frame_def)
  have b: "rc (bus ?c (ncalls ?c)) = 0" and d: "rdata (bus ?c (ncalls ?c)) = bootloader_frame"
    by (simp_all add: handshake_session_def example_session_def scripted_bus_def ok_def)
  have rd: "ttsp_read_block_data ?c CY_REG_BASE sizeof_xydata (Some (local_xydata ?c)) =
              (0, Some bootloader_frame, ?c1)"
    using ttsp_read_first_try [OF b l, of CY_REG_BASE "local_xydata ?c"]
    unfolding d frame_fills_buffer [OF len] .
  have f: "GET_BOOTLOADERMODE (xy_tt_mode bootloader_frame) \<noteq> 0"
    by (simp add: bootloader_frame_def xy_tt_mode_def GET_BOOTLOADERMODE_def)
  have fl: "\<forall>i<4. rc (bus ?c1 (ncalls ?c1 + i)) < 0"
    by (simp add: handshake_session_def example_session_def scripted_bus_def EIO_def)
  have one: "(1::u8) \<noteq> 0" by simp
  have hs: "cyttsp_hndshk ?c1 (xy_hst_mode bootloader_frame) =
              (- 5, ?c\<lparr>ncalls := 5,
        trace := [BusRead 0 32, BusWrite 0 [0x80], Msleep 20, BusWrite 0 [0x80], Msleep 20,
                  BusWrite 0 [0x80], Msleep 20, BusWrite 0 [0x80], Msleep 20]\<rparr>)"
    unfolding cyttsp_hndshk_def Let_def ttsp_write_all_fail [OF fl one]
    by (simp add: retry_trace_4 handshake_session_def example_session_def scripted_bus_def
        EIO_def CY_REG_BASE_def sizeof_xydata_def CY_DELAY_DFLT_def CY_HNDSHK_BIT_def
        xy_hst_mode_def bootloader_frame_def)
  have h: "cyttsp_handle_tchdata ?c =
             (0, ?c\<lparr>ncalls := 5,
        trace := [BusRead 0 32, BusWrite 0 [0x80], Msleep 20, BusWrite 0 [0x80], Msleep 20,
                  BusWrite 0 [0x80], Msleep 20, BusWrite 0 [0x80], Msleep 20]\<rparr>)"
    unfolding cyttsp_handle_tchdata_def rd
    by (simp add: hs Let_def) (simp add: handshake_session_def example_session_def)
  have ps: "power_state ?c = CY_ACTIVE_STATE"
    by (simp add: handshake_session_def example_session_def)
  have irq: "cyttsp_irq ?c = snd (cyttsp_handle_tchdata ?c)"
    using ps by (simp add: cyttsp_irq_def h)
  show ?thesis
    using ps rd f irq h by simp
qed

section \<open>Attach\<close>

lemma soft_reset_step: "session_step ts (snd (cyttsp_soft_reset ts))"
proof -
  obtain r t where w: "ttsp_write_block_data ts CY_REG_BASE 1 (Some [CY_SOFT_RESET_MODE]) = (r, t)"
    by (metis surj_pair)
  have t: "session_step ts t" using ttsp_write_step [of ts] w by (metis snd_conv)
  then have "session_step ts (emit (WaitBlReady (CY_DELAY_DFLT * CY_DELAY_MAX)) t)"
    by (rule session_step_trans) (simp add: session_step_emit)
  with t show ?thesis using w by (simp add: cyttsp_soft_reset_def)
qed

lemma sysinfo_poll_step: "session_step ts (snd (snd (sysinfo_poll tries ts)))"
proof (induction tries ts rule: sysinfo_poll.induct)
  case (1 tries ts)
  obtain r buf t1 where
    rd: "ttsp_read_block_data (msleep CY_DELAY_DFLT ts) CY_REG_BASE sizeof_sysinfo_data
           (Some (sysinfo_data ts)) = (r, buf, t1)"
    by (metis prod_cases3)
  define t where "t = (case buf of Some b \<Rightarrow> t1\<lparr>sysinfo_data := b\<rparr> | None \<Rightarrow> t1)"
  have "session_step (msleep CY_DELAY_DFLT ts) t1"
    using ttsp_read_step [of "msleep CY_DELAY_DFLT ts"] rd by (metis snd_conv)
  then have t1: "session_step ts t1"
    using session_step_msleep session_step_trans by blast
  have t: "session_step ts t"
    unfolding t_def using t1
    by (cases buf) (auto intro: session_step_trans session_step_sysinfo_data)
  show ?case
  proof (cases "(r \<noteq> 0 \<or> (si_tts_verh (sysinfo_data t) = 0 \<and> si_tts_verl (sysinfo_data t) = 0))
                \<and> tries < CY_DELAY_MAX")
    case True
    then have "session_step t (snd (snd (sysinfo_poll (tries + 1) t)))"
      using "1.IH" [OF rd [symmetric] refl t_def] by blast
    with t have "session_step ts (snd (snd (sysinfo_poll (tries + 1) t)))"
      by (rule session_step_trans)
    then show ?thesis
      using True rd by (subst sysinfo_poll.simps) (auto simp: Let_def t_def)
  next
    case False
    with t show ?thesis
      using rd by (subst sysinfo_poll.simps) (auto simp: Let_def t_def)
  qed
qed

lemma set_sysinfo_mode_step: "session_step ts (snd (cyttsp_set_sysinfo_mode ts))"
proof -
  let ?ts0 = "ts\<lparr>sysinfo_data := replicate (unat sizeof_sysinfo_data) 0\<rparr>"
  obtain r t where w: "ttsp_write_block_data ?ts0 CY_REG_BASE 1 (Some [CY_SYSINFO_MODE]) = (r, t)"
    by (metis surj_pair)
  have "session_step ?ts0 t" using ttsp_write_step [of ?ts0] w by (metis snd_conv)
  then have t: "session_step ts t"
    using session_step_sysinfo_data session_step_trans by blast
  obtain r' n t' where p: "sysinfo_poll 0 t = (r', n, t')" by (metis prod_cases3)
  have "session_step t t'" using sysinfo_poll_step [of t 0] p by simp
  with t have "session_step ts t'" by (rule session_step_trans)
  with t show ?thesis using w p by (simp add: cyttsp_set_sysinfo_mode_def Let_def)
qed

lemma set_sysinfo_regs_step: "session_step ts (snd (cyttsp_set_sysinfo_regs ts))"
proof -
  let ?ray = "[act_intrvl (platform_data ts), tch_tmout (platform_data ts),
               lp_intrvl (platform_data ts)]"
  obtain r t where w: "ttsp_write_block_data ts CY_REG_ACT_INTRVL 3 (Some ?ray) = (r, t)"
    by (metis surj_pair)
  have "session_step ts t" using ttsp_write_step [of ts] w by (metis snd_conv)
  then have "session_step ts (msleep CY_DELAY_DFLT t)"
    using session_step_msleep session_step_trans by blast
  then show ?thesis
    using w by (simp add: cyttsp_set_sysinfo_regs_def Let_def session_step_refl)
qed

lemma operational_poll_step:
  "session_step ts (snd (snd (operational_poll tries xy_data ts)))"
proof (induction tries xy_data ts rule: operational_poll.induct)
  case (1 tries xy_data ts)
  obtain r buf t where
    rd: "ttsp_read_block_data ts CY_REG_BASE sizeof_xydata (Some xy_data) = (r, buf, t)"
    by (metis prod_cases3)
  define xy where "xy = (case buf of Some b \<Rightarrow> b | None \<Rightarrow> xy_data)"
  have t: "session_step ts t"
    using ttsp_read_step [of ts] rd by (metis snd_conv)
  show ?case
  proof (cases "(r \<noteq> 0 \<or> xy_act_dist xy \<noteq> CY_ACT_DIST_DFLT) \<and> tries < CY_DELAY_MAX")
    case True
    then have "session_step t (snd (snd (operational_poll (tries + 1) xy t)))"
      using "1.IH" [OF rd [symmetric] refl xy_def] by blast
    with t have "session_step ts (snd (snd (operational_poll (tries + 1) xy t)))"
      by (rule session_step_trans)
    then show ?thesis
      using True rd by (subst operational_poll.simps) (auto simp: Let_def xy_def)
  next
    case False
    with t show ?thesis
      using rd by (subst operational_poll.simps) (auto simp: Let_def xy_def)
  qed
qed

lemma set_operational_mode_step: "session_step ts (snd (cyttsp_set_operational_mode ts))"
proof -
  obtain r t where w: "ttsp_write_block_data ts CY_REG_BASE 1 (Some [CY_OPERATE_MODE]) = (r, t)"
    by (metis surj_pair)
  have t: "session_step ts t" using ttsp_write_step [of ts] w by (metis snd_conv)
  obtain r' n t' where p: "operational_poll 0 (local_xydata t) t = (r', n, t')"
    by (metis prod_cases3)
  have "session_step t t'" using operational_poll_step [of t 0 "local_xydata t"] p by simp
  with t have "session_step ts t'" by (rule session_step_trans)
  with t show ?thesis using w p by (simp add: cyttsp_set_operational_mode_def)
qed

lemma act_dist_setup_step: "session_step ts (snd (cyttsp_act_dist_setup ts))"
  by (simp add: cyttsp_act_dist_setup_def ttsp_write_step)


lemma no_bl_bypass_chain:
  assumes "cyttsp_set_sysinfo_mode ts = (r4, ts4)"
    and "cyttsp_set_sysinfo_regs ts4 = (r5, ts5)"
    and "cyttsp_set_operational_mode ts5 = (r6, ts6)"
    and "cyttsp_act_dist_setup ts6 = (r7, ts7)"
  shows "no_bl_bypass ts =
           (if r4 < 0 then (r4, ts4)
            else if r5 < 0 then (r5, ts5)
            else if r6 < 0 then (r6, ts6)
            else if r7 < 0 then (r7, ts7)
            else (0, ts7\<lparr>power_state := CY_ACTIVE_STATE\<rparr>))"
    and "power_state ts4 = power_state ts" and "power_state ts5 = power_state ts"
    and "power_state ts6 = power_state ts" and "power_state ts7 = power_state ts"
proof -
  show "no_bl_bypass ts =
           (if r4 < 0 then (r4, ts4)
            else if r5 < 0 then (r5, ts5)
            else if r6 < 0 then (r6, ts6)
            else if r7 < 0 then (r7, ts7)
            else (0, ts7\<lparr>power_state := CY_ACTIVE_STATE\<rparr>))"
    using assms by (simp add: no_bl_bypass_def)
  have "session_step ts ts4" using set_sysinfo_mode_step [of ts] assms(1) by simp
  then show p4: "power_state ts4 = power_state ts" by (rule session_step_power_state)
  have "session_step ts4 ts5" using set_sysinfo_regs_step [of ts4] assms(2) by simp
  then show p5: "power_state ts5 = power_state ts"
    using p4 by (simp add: session_step_power_state)
  have "session_step ts5 ts6" using set_operational_mode_step [of ts5] assms(3) by simp
  then show p6: "power_state ts6 = power_state ts"
    using p5 by (simp add: session_step_power_state)
  have "session_step ts6 ts7" using act_dist_setup_step [of ts6] assms(4) by simp
  then show "power_state ts7 = power_state ts"
    using p6 by (simp add: session_step_power_state)
qed

text \<open>An attach on a bus that answers the soft reset and nothing after it.\<close>

lemma dead_bus_soft_reset:
  "cyttsp_soft_reset
     ((example_session (scripted_bus [ok []]))\<lparr>power_state := CY_BL_STATE\<rparr>) =
     (1, (example_session (scripted_bus [ok []]))
           \<lparr>power_state := CY_BL_STATE, ncalls := 1,
            trace := [BusWrite 0 [1], WaitBlReady 500]\<rparr>)"
  by (simp add: cyttsp_soft_reset_def ttsp_write_first_try emit_def
      example_session_def scripted_bus_def ok_def
      CY_REG_BASE_def CY_SOFT_RESET_MODE_def CY_DELAY_DFLT_def CY_DELAY_MAX_def)

lemma dead_bus_validity_check:
  "fst (cyttsp_bl_app_valid
         ((example_session (scripted_bus [ok []]))
            \<lparr>power_state := CY_BL_STATE, ncalls := 1,
             trace := [BusWrite 0 [1], WaitBlReady 500]\<rparr>)) = - 19"
proof -
  let ?s = "example_session (scripted_bus [ok []])"
  let ?s1 = "?s\<lparr>power_state := CY_BL_STATE, ncalls := 1,
                trace := [BusWrite 0 [1], WaitBlReady 500]\<rparr>"
  let ?s1' = "?s1\<lparr>bl_data := (replicate (unat sizeof_bootloader_data) 0)[1 := 0x10]\<rparr>"
  have fl: "\<forall>i<4. rc (bus ?s1' (ncalls ?s1' + i)) < 0"
    by (simp add: example_session_def scripted_bus_def EIO_def)
  have l: "sizeof_bootloader_data \<noteq> 0" by (simp add: sizeof_bootloader_data_def)
  have "fst (ttsp_read_block_data ?s1' CY_REG_BASE sizeof_bootloader_data
               (Some (bl_data ?s1'))) < 0"
    using ttsp_read_all_fail [OF fl l, of CY_REG_BASE "bl_data ?s1'"]
    by (simp add: example_session_def scripted_bus_def EIO_def)
  then have lf: "fst (cyttsp_load_bl_regs ?s1) < 0"
    by (cases "ttsp_read_block_data ?s1' CY_REG_BASE sizeof_bootloader_data
               (Some (bl_data ?s1'))")
      (simp add: cyttsp_load_bl_regs_def Let_def)
  then show ?thesis
    by (cases "cyttsp_load_bl_regs ?s1") (simp add: cyttsp_bl_app_valid_def ENODEV_def)
qed

text \<open>
  C1 (as amended). An attach whose interrupt is granted and whose soft reset completes (a
  positive result): when one of the later steps fails (a negative result) - the bootloader
  validity check, the exit from the bootloader, the entry into the system information
  mode, the interval configuration, the entry into the operational mode or the
  active-distance write - \<^verbatim>\<open>cyttsp_power_on\<close> returns that step's error, and the power
  state is then the bootloader state when the exit from the bootloader was skipped or had
  not succeeded, and the idle state when it had succeeded; the power state is active on
  return exactly when every one of these steps succeeded, and the result is then 0.
\<close>

theorem power_on_step_failure:
  assumes "irq_request ts \<ge> 0"
    and "cyttsp_soft_reset (ts\<lparr>power_state := CY_BL_STATE\<rparr>) = (r1, ts1)" and "r1 > 0"
    and "cyttsp_bl_app_valid ts1 = (r2, ts2)"
    and "cyttsp_exit_bl_mode ts2 = (r3, ts3)"
    and "cyttsp_set_sysinfo_mode
           (if r2 > 0 then ts2 else ts3\<lparr>power_state := CY_IDLE_STATE\<rparr>) = (r4, ts4)"
    and "cyttsp_set_sysinfo_regs ts4 = (r5, ts5)"
    and "cyttsp_set_operational_mode ts5 = (r6, ts6)"
    and "cyttsp_act_dist_setup ts6 = (r7, ts7)"
  shows "cyttsp_power_on (Some ts) =
           (if r2 < 0 then (r2, Some ts2)
            else if r2 = 0 \<and> r3 < 0 then (r3, Some ts3)
            else if r4 < 0 then (r4, Some ts4)
            else if r5 < 0 then (r5, Some ts5)
            else if r6 < 0 then (r6, Some ts6)
            else if r7 < 0 then (r7, Some ts7)
            else (0, Some (ts7\<lparr>power_state := CY_ACTIVE_STATE\<rparr>))) \<and>
         power_state ts2 = CY_BL_STATE \<and> power_state ts3 = CY_BL_STATE \<and>
         power_state ts4 = (if r2 > 0 then CY_BL_STATE else CY_IDLE_STATE) \<and>
         power_state ts5 = (if r2 > 0 then CY_BL_STATE else CY_IDLE_STATE) \<and>
         power_state ts6 = (if r2 > 0 then CY_BL_STATE else CY_IDLE_STATE) \<and>
         power_state ts7 = (if r2 > 0 then CY_BL_STATE else CY_IDLE_STATE) \<and>
         (map_option power_state (snd (cyttsp_power_on (Some ts))) = Some CY_ACTIVE_STATE) =
           (r2 \<ge> 0 \<and> (r2 = 0 \<longrightarrow> r3 \<ge> 0) \<and> r4 \<ge> 0 \<and> r5 \<ge> 0 \<and> r6 \<ge> 0 \<and> r7 \<ge> 0)"
proof -
  let ?st = "if r2 > 0 then CY_BL_STATE else CY_IDLE_STATE"
  let ?t = "if r2 > 0 then ts2 else ts3\<lparr>power_state := CY_IDLE_STATE\<rparr>"
  have "session_step (ts\<lparr>power_state := CY_BL_STATE\<rparr>) ts1"
    using soft_reset_step [of "ts\<lparr>power_state := CY_BL_STATE\<rparr>"] assms(2) by simp
  then have p1: "power_state ts1 = CY_BL_STATE"
    using session_step_power_state by fastforce
  have "session_step ts1 ts2" using bl_app_valid_step [of ts1] assms(4) by simp
  then have p2: "power_state ts2 = CY_BL_STATE"
    using p1 by (simp add: session_step_power_state)
  have "session_step ts2 ts3" using exit_bl_mode_step [of ts2] assms(5) by simp
  then have p3: "power_state ts3 = CY_BL_STATE"
    using p2 by (simp add: session_step_power_state)
  note ch = no_bl_bypass_chain [OF assms(6,7,8,9)]
  have pt: "power_state ?t = ?st" using p2 by simp
  have on: "cyttsp_power_on (Some ts) =
           (if r2 < 0 then (r2, Some ts2)
            else if r2 = 0 \<and> r3 < 0 then (r3, Some ts3)
            else (case no_bl_bypass ?t of (r, t) \<Rightarrow> (r, Some t)))"
    using assms(1,2,3,4,5)
    by (simp add: cyttsp_power_on_def power_on_session_def Let_def)
  have full: "cyttsp_power_on (Some ts) =
           (if r2 < 0 then (r2, Some ts2)
            else if r2 = 0 \<and> r3 < 0 then (r3, Some ts3)
            else if r4 < 0 then (r4, Some ts4)
            else if r5 < 0 then (r5, Some ts5)
            else if r6 < 0 then (r6, Some ts6)
            else if r7 < 0 then (r7, Some ts7)
            else (0, Some (ts7\<lparr>power_state := CY_ACTIVE_STATE\<rparr>)))"
    unfolding on ch(1) by simp
  have p4: "power_state ts4 = ?st" and p5: "power_state ts5 = ?st"
    and p6: "power_state ts6 = ?st" and p7: "power_state ts7 = ?st"
    using ch(2,3,4,5) pt by simp_all
  have act: "(map_option power_state (snd (cyttsp_power_on (Some ts))) = Some CY_ACTIVE_STATE) =
           (r2 \<ge> 0 \<and> (r2 = 0 \<longrightarrow> r3 \<ge> 0) \<and> r4 \<ge> 0 \<and> r5 \<ge> 0 \<and> r6 \<ge> 0 \<and> r7 \<ge> 0)"
    unfolding full using p2 p3 p4 p5 p6 p7 by auto
  show ?thesis using full p2 p3 p4 p5 p6 p7 act by blast
qed


theorem power_on_step_failure_witness:
  "fst (cyttsp_power_on (Some (example_session (scripted_bus attach_script)))) = 0 \<and>
   map_option power_state
     (snd (cyttsp_power_on (Some (example_session (scripted_bus attach_script))))) =
     Some CY_ACTIVE_STATE \<and>
   fst (cyttsp_power_on (Some (example_session (scripted_bus [ok []])))) = - 19"
proof -
  have c: "\<And>p :: int \<times> cyttsp. p = (fst p, snd p)" by simp
  have "irq_request (example_session (scripted_bus [ok []])) \<ge> 0"
    by (simp add: example_session_def)
  moreover have "(1::int) > 0" by simp
  ultimately have dead:
    "fst (cyttsp_power_on (Some (example_session (scripted_bus [ok []])))) = - 19"
    using power_on_step_failure [OF _ dead_bus_soft_reset _ c c c c c c]
      dead_bus_validity_check
    by simp
  let ?s = "example_session (scripted_bus attach_script)"
  let ?s1 = "?s\<lparr>power_state := CY_BL_STATE, ncalls := 1,
                trace := [BusWrite 0 [1], WaitBlReady 500]\<rparr>"
  let ?s2 = "?s1\<lparr>bl_data := 0 # 0 # replicate 14 0, ncalls := 2,
                 trace := [BusWrite 0 [1], WaitBlReady 500, BusRead 0 16]\<rparr>"
  let ?s4 = "?s2\<lparr>sysinfo_data := sysinfo_regs, ncalls := 4,
                 trace := [BusWrite 0 [1], WaitBlReady 500, BusRead 0 16,
                           BusWrite 0 [0x10], Msleep 20, BusRead 0 32]\<rparr>"
  let ?s6 = "?s4\<lparr>ncalls := 6,
                 trace := [BusWrite 0 [1], WaitBlReady 500, BusRead 0 16,
                           BusWrite 0 [0x10], Msleep 20, BusRead 0 32,
                           BusWrite 0 [0x00], BusRead 0 32]\<rparr>"
  let ?s7 = "?s6\<lparr>ncalls := 7,
                 trace := [BusWrite 0 [1], WaitBlReady 500, BusRead 0 16,
                           BusWrite 0 [0x10], Msleep 20, BusRead 0 32,
                           BusWrite 0 [0x00], BusRead 0 32, BusWrite 0x1E [0xF8]]\<rparr>"
  have irq: "irq_request ?s \<ge> 0" by (simp add: example_session_def)
  have sr: "cyttsp_soft_reset (?s\<lparr>power_state := CY_BL_STATE\<rparr>) = (1, ?s1)"
    by (simp add: cyttsp_soft_reset_def ttsp_write_first_try emit_def attach_script_def
        example_session_def scripted_bus_def ok_def
        CY_REG_BASE_def CY_SOFT_RESET_MODE_def CY_DELAY_DFLT_def CY_DELAY_MAX_def)
  have one: "(1::int) > 0" by simp
  have bv: "cyttsp_bl_app_valid ?s1 = (1, ?s2)"
    by (simp add: cyttsp_bl_app_valid_def load_bl_regs_first_try attach_script_def
        example_session_def scripted_bus_def ok_def store_bytes_def bl_status_def bl_file_def
        GET_BOOTLOADERMODE_def GET_HSTMODE_def IS_OPERATIONAL_ERR_def CY_OPERATE_MODE_def
        CY_REG_BASE_def)
  have eb: "cyttsp_exit_bl_mode ?s2 =
              (fst (cyttsp_exit_bl_mode ?s2), snd (cyttsp_exit_bl_mode ?s2))"
    by simp
  have si: "store_bytes (take 32 sysinfo_regs) (replicate 32 0) = sysinfo_regs"
    "si_tts_verh sysinfo_regs = 1"
    by (simp_all add: store_bytes_def sysinfo_regs_def si_tts_verh_def)
  have sm: "cyttsp_set_sysinfo_mode ?s2 = (0, ?s4)"
    by (simp add: cyttsp_set_sysinfo_mode_def ttsp_write_first_try sysinfo_poll.simps
        ttsp_read_first_try msleep_def emit_def attach_script_def si
        example_session_def scripted_bus_def ok_def
        sizeof_sysinfo_data_def CY_REG_BASE_def CY_SYSINFO_MODE_def
        CY_DELAY_DFLT_def CY_DELAY_MAX_def Let_def)
  have sg: "cyttsp_set_sysinfo_regs ?s4 = (0, ?s4)"
    by (simp add: cyttsp_set_sysinfo_regs_def example_session_def example_platform_data_def)
  have xy: "\<And>t. store_bytes (take 32 two_touch_frame) (local_xydata t) = two_touch_frame"
    "xy_act_dist two_touch_frame = CY_ACT_DIST_DFLT"
    by (simp_all add: store_bytes_def two_touch_frame_def local_xydata_def sizeof_xydata_def
        xy_act_dist_def CY_ACT_DIST_DFLT_def)
  have om: "cyttsp_set_operational_mode ?s4 = (0, ?s6)"
    by (simp add: cyttsp_set_operational_mode_def ttsp_write_first_try operational_poll.simps
        ttsp_read_first_try emit_def attach_script_def xy
        example_session_def scripted_bus_def ok_def
        sizeof_xydata_def CY_REG_BASE_def CY_OPERATE_MODE_def
        CY_DELAY_DFLT_def CY_DELAY_MAX_def Let_def)
  have ad: "cyttsp_act_dist_setup ?s6 = (0, ?s7)"
    by (simp add: cyttsp_act_dist_setup_def ttsp_write_first_try attach_script_def
        example_session_def example_platform_data_def scripted_bus_def ok_def
        CY_REG_ACT_DIST_def CY_ACT_DIST_DFLT_def)
  have sm': "cyttsp_set_sysinfo_mode
           (if (1::int) > 0 then ?s2
            else (snd (cyttsp_exit_bl_mode ?s2))\<lparr>power_state := CY_IDLE_STATE\<rparr>) = (0, ?s4)"
    using sm by simp
  show ?thesis
    using power_on_step_failure [OF irq sr one bv eb sm' sg om ad] dead
    by simp
qed


text \<open>
  C1 as stated fails at the power state: when the soft reset completes and the bus then
  stops answering, the validity check fails, attach returns its \<open>-ENODEV\<close>, and the
  power state is the bootloader state that attach set at its start, not the idle state.
\<close>

theorem power_on_failure_in_bootloader_state:
  "fst (cyttsp_soft_reset
         ((example_session (scripted_bus [ok []]))\<lparr>power_state := CY_BL_STATE\<rparr>)) = 1 \<and>
   fst (cyttsp_power_on (Some (example_session (scripted_bus [ok []])))) = - 19 \<and>
   map_option power_state (snd (cyttsp_power_on (Some (example_session (scripted_bus [ok []])))))
     = Some CY_BL_STATE"
proof -
  let ?s = "example_session (scripted_bus [ok []])"
  let ?s1 = "?s\<lparr>power_state := CY_BL_STATE, ncalls := 1,
                trace := [BusWrite 0 [1], WaitBlReady 500]\<rparr>"
  note sr = dead_bus_soft_reset and bv = dead_bus_validity_check
  have irq: "\<not> irq_request ?s < 0" by (simp add: example_session_def)
  have "power_state (snd (cyttsp_bl_app_valid ?s1)) = power_state ?s1"
    using bl_app_valid_step [of ?s1] by (rule session_step_power_state)
  then have ps: "power_state (snd (cyttsp_bl_app_valid ?s1)) = CY_BL_STATE" by simp
  have on: "cyttsp_power_on (Some ?s) =
              (fst (cyttsp_bl_app_valid ?s1), Some (snd (cyttsp_bl_app_valid ?s1)))"
    using irq sr bv
    by (cases "cyttsp_bl_app_valid ?s1")
      (simp add: cyttsp_power_on_def power_on_session_def Let_def)
  show ?thesis unfolding on using sr bv ps by simp
qed

text \<open>
  What the amended claim leaves out: a soft reset whose wait times out sends attach to its
  exit with the result 0, in the bootloader state.
\<close>

lemma power_on_soft_reset_timeout:
  assumes "irq_request ts \<ge> 0"
    and "cyttsp_soft_reset (ts\<lparr>power_state := CY_BL_STATE\<rparr>) = (0, ts1)"
  shows "cyttsp_power_on (Some ts) = (0, Some ts1) \<and> power_state ts1 = CY_BL_STATE"
proof -
  have "session_step (ts\<lparr>power_state := CY_BL_STATE\<rparr>) ts1"
    using soft_reset_step [of "ts\<lparr>power_state := CY_BL_STATE\<rparr>"] assms(2) by simp
  then have "power_state ts1 = CY_BL_STATE"
    using session_step_power_state by fastforce
  then show ?thesis
    using assms by (simp add: cyttsp_power_on_def power_on_session_def Let_def)
qed

text \<open>
  And a soft reset whose write fails does not end attach: the validity check runs next,
  and it is its error that attach returns when it fails in turn.
\<close>

lemma power_on_soft_reset_write_error:
  assumes "irq_request ts \<ge> 0"
    and "cyttsp_soft_reset (ts\<lparr>power_state := CY_BL_STATE\<rparr>) = (r1, ts1)" and "r1 < 0"
    and "cyttsp_bl_app_valid ts1 = (r2, ts2)" and "r2 < 0"
  shows "cyttsp_power_on (Some ts) = (r2, Some ts2)"
  using assms by (simp add: cyttsp_power_on_def power_on_session_def Let_def)

end
